theory Spec2Isabelle
  imports Complex_Main "HOL-Library.Word" "HOL-Library.Option_ord"
begin

section \<open>Notes RAG backend: ingestion and semantic retrieval\<close>

text \<open>
  A shallow embedding of \<^verbatim>\<open>backend/app\<close>: the request models of
  \<^verbatim>\<open>models/schemas.py\<close>, the embedding functions of \<^verbatim>\<open>services/gemini_service.py\<close>,
  the repository \<^verbatim>\<open>MongoDBService\<close> of \<^verbatim>\<open>services/mongodb_service.py\<close> and the
  route handlers of \<^verbatim>\<open>routes/notes.py\<close>.

  The two external collaborators are modelled, not verified: the embedding provider is a
  function parameter \<open>P\<close> (what \<^verbatim>\<open>genai.embed_content\<close> answers), and the MongoDB
  collection is a list of documents inside an explicit \<open>world\<close> state, with the driver
  operations the program calls (\<^verbatim>\<open>insert_one\<close>, \<^verbatim>\<open>find_one\<close>, \<^verbatim>\<open>find\<close>,
  \<^verbatim>\<open>aggregate\<close>) given their documented meaning on that list. Every \<^verbatim>\<open>raise\<close> of the
  source is an \<open>Inl\<close> branch, every \<^verbatim>\<open>try/except\<close> a case distinction on it.
\<close>

subsection \<open>Settings (\<^verbatim>\<open>config.py\<close>, the defaults of class \<^verbatim>\<open>Settings\<close>)\<close>

definition gemini_embedding_model :: string where
  "gemini_embedding_model = ''models/text-embedding-004''"

definition gemini_embedding_dimensions :: int where
  "gemini_embedding_dimensions = 768"

definition mongodb_vector_index_name :: string where
  "mongodb_vector_index_name = ''vector_index''"

definition vector_search_num_candidates :: int where
  "vector_search_num_candidates = 100"

subsection \<open>Python strings\<close>

text \<open>
  A \<open>char\<close> stands for a code point below 256. \<open>py_isspace\<close> is \<^verbatim>\<open>str.isspace\<close> on
  those: TAB, LF, VT, FF, CR, the separators 0x1C to 0x1F, SPACE, NEL (0x85) and NBSP (0xA0).
  \<open>py_strip\<close> is \<^verbatim>\<open>str.strip()\<close> and \<open>py_join\<close> is \<^verbatim>\<open>sep.join(xs)\<close>.
\<close>

definition py_isspace :: "char \<Rightarrow> bool" where
  "py_isspace c = ((of_char c :: nat) \<in> {9, 10, 11, 12, 13, 28, 29, 30, 31, 32, 133, 160})"

definition py_strip :: "string \<Rightarrow> string" where
  "py_strip s = rev (dropWhile py_isspace (rev (dropWhile py_isspace s)))"

fun py_join :: "string \<Rightarrow> string list \<Rightarrow> string" where
  "py_join sep [] = []"
| "py_join sep [x] = x"
| "py_join sep (x # y # ys) = x @ sep @ py_join sep (y # ys)"

definition LF :: char where
  "LF = CHR 0x0A"

subsection \<open>Exceptions\<close>

text \<open>
  Messages are kept structured: \<open>Prefixed p m\<close> is the f-string \<^verbatim>\<open>f"{p}: {m}"\<close>,
  \<open>ExpectedGot d n\<close> is \<^verbatim>\<open>f"Expected {d} dimensions, got {n}"\<close>, and
  \<open>StatusDetail s m\<close> is what \<^verbatim>\<open>str()\<close> gives for an \<^verbatim>\<open>HTTPException\<close>.
  \<open>ValidationError\<close> is pydantic's, raised when a model is built inside a handler; it is
  a subclass of \<^verbatim>\<open>ValueError\<close>. \<open>RequestValidationError\<close> is what the framework
  answers (status 422) when the request body fails its model, before the handler runs.
\<close>

datatype msg =
    Text string
  | ExpectedGot int nat
  | Prefixed string msg
  | StatusDetail nat msg

datatype field_error =
    StringTooShort string
  | StringTooLong string
  | GreaterThanEqual string
  | LessThanEqual string
  | ValueErr string msg

datatype exn =
    ValueError msg
  | ValidationError msg
  | Exception msg
  | HTTPException nat msg
  | InvalidId msg
  | ProviderError msg
  | PyMongoError msg
  | KeyError msg
  | RequestValidationError "field_error list"

fun str_exn :: "exn \<Rightarrow> msg" where
  "str_exn (ValueError m) = m"
| "str_exn (ValidationError m) = m"
| "str_exn (Exception m) = m"
| "str_exn (HTTPException s m) = StatusDetail s m"
| "str_exn (InvalidId m) = m"
| "str_exn (ProviderError m) = m"
| "str_exn (PyMongoError m) = m"
| "str_exn (KeyError m) = m"
| "str_exn (RequestValidationError es) = Text ''request validation failed''"

text \<open>\<^verbatim>\<open>except ValueError\<close> catches exactly these.\<close>

fun is_ValueError :: "exn \<Rightarrow> bool" where
  "is_ValueError (ValueError m) = True"
| "is_ValueError (ValidationError m) = True"
| "is_ValueError e = False"

fun http_status :: "exn \<Rightarrow> nat" where
  "http_status (HTTPException s m) = s"
| "http_status (RequestValidationError es) = 422"
| "http_status e = 500"

subsection \<open>ObjectId (\<^verbatim>\<open>bson.ObjectId\<close>)\<close>

text \<open>
  An ObjectId wraps the bytes of its id, 12 when the driver generates it.
  \<^verbatim>\<open>str(oid)\<close> is two lower-case hexadecimal digits for each byte.
  \<^verbatim>\<open>ObjectId(s)\<close> on a string raises \<^verbatim>\<open>InvalidId\<close> unless \<open>s\<close> has 24
  characters and \<^verbatim>\<open>bytes.fromhex(s)\<close> succeeds; \<^verbatim>\<open>fromhex\<close> reads pairs of
  hexadecimal digits of either case and skips ASCII white space before a pair and at the
  end, so a 24-character string with white space between pairs is accepted and gives
  fewer than 12 bytes.
\<close>

type_synonym object_id = "8 word list"

definition hexchar :: "nat \<Rightarrow> char" where
  "hexchar n = ''0123456789abcdef'' ! (n mod 16)"

definition hexval :: "char \<Rightarrow> nat option" where
  "hexval c = (let k = (of_char c :: nat) in
     if 48 \<le> k \<and> k \<le> 57 then Some (k - 48)
     else if 97 \<le> k \<and> k \<le> 102 then Some (k - 87)
     else if 65 \<le> k \<and> k \<le> 70 then Some (k - 55)
     else None)"

definition ascii_space :: "char \<Rightarrow> bool" where
  "ascii_space c = ((of_char c :: nat) \<in> {9, 10, 11, 12, 13, 32})"

fun fromhex :: "string \<Rightarrow> 8 word list option" where
  "fromhex [] = Some []"
| "fromhex [c] = (if ascii_space c then Some [] else None)"
| "fromhex (c # d # ds) =
     (if ascii_space c then fromhex (d # ds)
      else
        (case (hexval c, hexval d) of
           (Some t, Some b) \<Rightarrow> map_option ((#) (word_of_nat (16 * t + b))) (fromhex ds)
         | _ \<Rightarrow> None))"

definition hex_byte :: "8 word \<Rightarrow> string" where
  "hex_byte b = [hexchar (unat b div 16), hexchar (unat b mod 16)]"

definition str_ObjectId :: "object_id \<Rightarrow> string" where
  "str_ObjectId oid = concat (map hex_byte oid)"

definition ObjectId :: "string \<Rightarrow> exn + object_id" where
  "ObjectId s =
     (if length s = 24 then
        (case fromhex s of
           Some bs \<Rightarrow> Inr bs
         | None \<Rightarrow> Inl (InvalidId (Prefixed s (Text ''is not a valid ObjectId''))))
      else Inl (InvalidId (Prefixed s (Text ''is not a valid ObjectId''))))"

text \<open>
  The id the driver generates for a new document: 12 bytes, here those of a counter,
  most significant first.
\<close>

definition new_ObjectId :: "96 word \<Rightarrow> object_id" where
  "new_ObjectId c = map (\<lambda>k. ucast (drop_bit (8 * (11 - k)) c)) [0..<12]"

subsection \<open>Documents\<close>

text \<open>
  A document is a Python \<^verbatim>\<open>dict\<close> from field names to values. The values are those
  the program reads and writes: strings, lists of strings (\<^verbatim>\<open>tags\<close>), lists of floats
  (\<^verbatim>\<open>embedding\<close>), datetimes, ObjectIds and floats (\<^verbatim>\<open>score\<close>). Floats are
  modelled as reals; nothing below computes with them.
\<close>

datatype bson =
    BStr string
  | BStrs "string list"
  | BFloats "real list"
  | BDate int
  | BId object_id
  | BFloat real

type_synonym doc = "string \<rightharpoonup> bson"

subsection \<open>The world: the collection, the clock and the calls made to the outside\<close>

text \<open>
  \<open>collection\<close> is the MongoDB collection, in insertion order. \<open>oid_counter\<close> counts
  the ObjectIds the driver has generated. \<open>faults\<close> schedules driver failures: each round
  trip to the store consumes the head, and \<open>True\<close> makes that round trip raise
  (network loss, an unconnected client); an empty schedule means no more failures.
  \<open>clock\<close> is the wall clock, advancing at every reading. \<open>embed_calls\<close> and
  \<open>aggregate_calls\<close> record, in order, every request sent to the embedding provider and
  every pipeline sent to the store.
\<close>

datatype criterion =
    FieldIs string bson   \<comment> \<open>\<^verbatim>\<open>{k: v}\<close>\<close>
  | FieldEq string bson   \<comment> \<open>\<^verbatim>\<open>{k: {"$eq": v}}\<close>\<close>

record vector_search_args =
  vs_index :: string
  vs_path :: string
  vs_queryVector :: "real list"
  vs_numCandidates :: int
  vs_limit :: int
  vs_filter :: criterion

datatype projection = Include | MetaVectorSearchScore

datatype stage =
    VectorSearch vector_search_args
  | Project "(string \<times> projection) list"

record embed_request =
  er_model :: string
  er_content :: string
  er_task_type :: string
  er_title :: "string option"

record world =
  collection :: "doc list"
  oid_counter :: "96 word"
  faults :: "bool list"
  clock :: int
  embed_calls :: "embed_request list"
  aggregate_calls :: "stage list list"

type_synonym provider = "embed_request \<Rightarrow> exn + real list"

type_synonym similarity = "real list \<Rightarrow> real list \<Rightarrow> real"

definition next_fault :: "world \<Rightarrow> bool \<times> world" where
  "next_fault w = (case faults w of [] \<Rightarrow> (False, w) | f # fs \<Rightarrow> (f, w\<lparr>faults := fs\<rparr>))"

definition utcnow :: "world \<Rightarrow> int \<times> world" where
  "utcnow w = (clock w, w\<lparr>clock := clock w + 1\<rparr>)"

subsection \<open>The store (the driver operations the program calls)\<close>

text \<open>
  Equality criteria compare the stored value with the given one; the program writes only
  scalar values to the fields it filters on (\<^verbatim>\<open>_id\<close>, \<^verbatim>\<open>user_id\<close>).
\<close>

fun matches :: "criterion \<Rightarrow> doc \<Rightarrow> bool" where
  "matches (FieldIs k v) d = (d k = Some v)"
| "matches (FieldEq k v) d = (d k = Some v)"

text \<open>
  \<^verbatim>\<open>insert_one\<close>: the driver gives the document a fresh \<^verbatim>\<open>_id\<close>; the store refuses
  a duplicate key.
\<close>

definition insert_one :: "world \<Rightarrow> doc \<Rightarrow> (exn + object_id) \<times> world" where
  "insert_one w d =
     (case next_fault w of
        (True, w1) \<Rightarrow> (Inl (PyMongoError (Text ''insert_one failed'')), w1)
      | (False, w1) \<Rightarrow>
          (let i = new_ObjectId (oid_counter w1);
               w2 = w1\<lparr>oid_counter := oid_counter w1 + 1\<rparr>
           in if list_ex (matches (FieldIs ''_id'' (BId i))) (collection w2)
              then (Inl (PyMongoError (Text ''duplicate key'')), w2)
              else (Inr i, w2\<lparr>collection := collection w2 @ [d(''_id'' \<mapsto> BId i)]\<rparr>)))"

definition find_one :: "world \<Rightarrow> criterion \<Rightarrow> (exn + doc option) \<times> world" where
  "find_one w c =
     (case next_fault w of
        (True, w1) \<Rightarrow> (Inl (PyMongoError (Text ''find_one failed'')), w1)
      | (False, w1) \<Rightarrow> (Inr (find (matches c) (collection w1)), w1))"

text \<open>
  A \<^verbatim>\<open>find\<close> cursor: filter, fields to exclude, sort key with direction, limit. Nothing
  is fetched before \<^verbatim>\<open>to_list\<close>. The sort key orders datetimes, a missing field
  first (the program sorts on \<^verbatim>\<open>updated_at\<close> only). A limit of 0 is no limit, a
  negative limit counts as its absolute value. \<^verbatim>\<open>to_list(length)\<close> refuses a
  negative length before any round trip and returns at most \<open>length\<close> documents.
\<close>

record cursor =
  cur_filter :: criterion
  cur_exclude :: "string list"
  cur_sort :: "(string \<times> int) option"
  cur_limit :: int

definition collection_find :: "criterion \<Rightarrow> string list \<Rightarrow> cursor" where
  "collection_find c excl =
     \<lparr>cur_filter = c, cur_exclude = excl, cur_sort = None, cur_limit = 0\<rparr>"

definition cursor_sort :: "cursor \<Rightarrow> string \<Rightarrow> int \<Rightarrow> cursor" where
  "cursor_sort cur k dir = cur\<lparr>cur_sort := Some (k, dir)\<rparr>"

definition cursor_limit :: "cursor \<Rightarrow> int \<Rightarrow> cursor" where
  "cursor_limit cur n = cur\<lparr>cur_limit := n\<rparr>"

definition date_key :: "string \<Rightarrow> doc \<Rightarrow> int option" where
  "date_key k d = (case d k of Some (BDate t) \<Rightarrow> Some t | _ \<Rightarrow> None)"

definition sort_docs :: "(string \<times> int) option \<Rightarrow> doc list \<Rightarrow> doc list" where
  "sort_docs s ds =
     (case s of
        None \<Rightarrow> ds
      | Some (k, dir) \<Rightarrow>
          if dir < 0 then rev (sort_key (date_key k) ds) else sort_key (date_key k) ds)"

definition limit_docs :: "int \<Rightarrow> 'a list \<Rightarrow> 'a list" where
  "limit_docs n ds = (if n = 0 then ds else take (nat \<bar>n\<bar>) ds)"

definition exclude_fields :: "string list \<Rightarrow> doc \<Rightarrow> doc" where
  "exclude_fields excl d = (\<lambda>k. if k \<in> set excl then None else d k)"

definition run_cursor :: "cursor \<Rightarrow> doc list \<Rightarrow> doc list" where
  "run_cursor cur ds =
     map (exclude_fields (cur_exclude cur))
       (limit_docs (cur_limit cur)
          (sort_docs (cur_sort cur) (filter (matches (cur_filter cur)) ds)))"

definition cursor_to_list :: "world \<Rightarrow> cursor \<Rightarrow> int \<Rightarrow> (exn + doc list) \<times> world" where
  "cursor_to_list w cur len =
     (if len < 0 then (Inl (ValueError (Text ''length must be non-negative'')), w)
      else
        (case next_fault w of
           (True, w1) \<Rightarrow> (Inl (PyMongoError (Text ''find failed'')), w1)
         | (False, w1) \<Rightarrow> (Inr (take (nat len) (run_cursor cur (collection w1))), w1)))"

text \<open>
  An aggregation pipeline runs stage by stage over items: a document with its
  \<^verbatim>\<open>vectorSearchScore\<close> metadata, if any.

  \<^verbatim>\<open>$vectorSearch\<close>: the store refuses a limit below 1 or above \<open>numCandidates\<close>.
  Otherwise the filter restricts the documents that are searched at all; among them those
  that carry a vector at \<open>path\<close> are scored against the query vector by the index's
  similarity \<open>sim\<close>, ranked by score descending, cut to \<open>numCandidates\<close> and then to
  \<open>limit\<close>. (The real index is approximate: it may rank a different subset of the
  filtered documents, never a document outside them.)

  \<^verbatim>\<open>$project\<close>: a field marked 1 is copied when present; a field marked
  \<^verbatim>\<open>{"$meta": "vectorSearchScore"}\<close> receives the score.
\<close>

type_synonym item = "doc \<times> real option"

definition scored :: "similarity \<Rightarrow> vector_search_args \<Rightarrow> doc \<Rightarrow> item option" where
  "scored sim a d =
     (case d (vs_path a) of
        Some (BFloats v) \<Rightarrow> Some (d, Some (sim (vs_queryVector a) v))
      | _ \<Rightarrow> None)"

definition run_vectorSearch :: "similarity \<Rightarrow> vector_search_args \<Rightarrow> item list \<Rightarrow> exn + item list" where
  "run_vectorSearch sim a items =
     (if vs_limit a < 1 \<or> vs_numCandidates a < vs_limit a
      then Inl (PyMongoError (Text ''$vectorSearch: invalid limit''))
      else Inr (take (nat (vs_limit a))
             (take (nat (vs_numCandidates a))
                (rev (sort_key snd
                   (List.map_filter (scored sim a)
                      (filter (matches (vs_filter a)) (map fst items))))))))"

definition run_project :: "(string \<times> projection) list \<Rightarrow> item \<Rightarrow> item" where
  "run_project spec it =
     ((\<lambda>k. case map_of spec k of
              None \<Rightarrow> None
            | Some Include \<Rightarrow> fst it k
            | Some MetaVectorSearchScore \<Rightarrow> map_option BFloat (snd it)),
      snd it)"

fun run_stage :: "similarity \<Rightarrow> stage \<Rightarrow> item list \<Rightarrow> exn + item list" where
  "run_stage sim (VectorSearch a) items = run_vectorSearch sim a items"
| "run_stage sim (Project spec) items = Inr (map (run_project spec) items)"

fun run_pipeline :: "similarity \<Rightarrow> stage list \<Rightarrow> item list \<Rightarrow> exn + item list" where
  "run_pipeline sim [] items = Inr items"
| "run_pipeline sim (s # ss) items =
     (case run_stage sim s items of
        Inl e \<Rightarrow> Inl e
      | Inr items' \<Rightarrow> run_pipeline sim ss items')"

text \<open>
  \<^verbatim>\<open>collection.aggregate(pipeline)\<close> followed by \<^verbatim>\<open>to_list(length)\<close>; the pipeline is
  sent at the first fetch.
\<close>

definition aggregate_to_list ::
  "similarity \<Rightarrow> world \<Rightarrow> stage list \<Rightarrow> int \<Rightarrow> (exn + doc list) \<times> world" where
  "aggregate_to_list sim w pipeline len =
     (if len < 0 then (Inl (ValueError (Text ''length must be non-negative'')), w)
      else
        (case next_fault (w\<lparr>aggregate_calls := aggregate_calls w @ [pipeline]\<rparr>) of
           (True, w1) \<Rightarrow> (Inl (PyMongoError (Text ''aggregate failed'')), w1)
         | (False, w1) \<Rightarrow>
             (case run_pipeline sim pipeline (map (\<lambda>d. (d, None)) (collection w1)) of
                Inl e \<Rightarrow> (Inl e, w1)
              | Inr items \<Rightarrow> (Inr (take (nat len) (map fst items)), w1))))"

subsection \<open>Request and response models (\<^verbatim>\<open>models/schemas.py\<close>)\<close>

text \<open>
  A request body arrives with typed fields; a field with a default may be absent. Each
  field is checked on its own: first the \<^verbatim>\<open>Field\<close> constraints on the value as sent,
  then the \<^verbatim>\<open>field_validator\<close>, whose return value (the stripped text) is what the
  model holds. A model is built only when no field has an error.
\<close>

record NoteCreate_body =
  body_title :: string
  body_content :: string
  body_user_id :: string
  body_tags :: "string list option"

record NoteCreate =
  title :: string
  content :: string
  user_id :: string
  tags :: "string list"

definition validate_content :: "string \<Rightarrow> field_error + string" where
  "validate_content v =
     (if v = [] \<or> py_strip v = []
      then Inl (ValueErr ''content'' (Text ''Content cannot be empty''))
      else Inr (py_strip v))"

definition validate_title :: "string \<Rightarrow> field_error + string" where
  "validate_title v =
     (if v = [] \<or> py_strip v = []
      then Inl (ValueErr ''title'' (Text ''Title cannot be empty''))
      else Inr (py_strip v))"

definition NoteCreate_title :: "string \<Rightarrow> field_error + string" where
  "NoteCreate_title v =
     (if length v < 1 then Inl (StringTooShort ''title'')
      else if 500 < length v then Inl (StringTooLong ''title'')
      else validate_title v)"

definition NoteCreate_content :: "string \<Rightarrow> field_error + string" where
  "NoteCreate_content v =
     (if length v < 1 then Inl (StringTooShort ''content'') else validate_content v)"

definition min_length_1 :: "string \<Rightarrow> string \<Rightarrow> field_error + string" where
  "min_length_1 name v = (if length v < 1 then Inl (StringTooShort name) else Inr v)"

definition errors_of :: "(field_error + 'a) \<Rightarrow> field_error list" where
  "errors_of r = (case r of Inl e \<Rightarrow> [e] | Inr v \<Rightarrow> [])"

definition NoteCreate_validate :: "NoteCreate_body \<Rightarrow> exn + NoteCreate" where
  "NoteCreate_validate b =
     (let t = NoteCreate_title (body_title b);
          c = NoteCreate_content (body_content b);
          u = min_length_1 ''user_id'' (body_user_id b)
      in case (t, c, u) of
           (Inr t', Inr c', Inr u') \<Rightarrow>
             Inr \<lparr>title = t', content = c', user_id = u',
                  tags = (case body_tags b of None \<Rightarrow> [] | Some ts \<Rightarrow> ts)\<rparr>
         | _ \<Rightarrow> Inl (RequestValidationError (errors_of t @ errors_of c @ errors_of u)))"

record SearchQuery_body =
  body_query :: string
  body_search_user_id :: string
  body_limit :: "int option"

record SearchQuery =
  query :: string
  search_user_id :: string
  limit :: int

definition validate_query :: "string \<Rightarrow> field_error + string" where
  "validate_query v =
     (if v = [] \<or> py_strip v = []
      then Inl (ValueErr ''query'' (Text ''Query cannot be empty''))
      else Inr (py_strip v))"

definition SearchQuery_query :: "string \<Rightarrow> field_error + string" where
  "SearchQuery_query v =
     (if length v < 1 then Inl (StringTooShort ''query'') else validate_query v)"

definition SearchQuery_limit :: "int option \<Rightarrow> field_error + int" where
  "SearchQuery_limit v =
     (case v of
        None \<Rightarrow> Inr 10
      | Some n \<Rightarrow>
          if \<not> 1 \<le> n then Inl (GreaterThanEqual ''limit'')
          else if \<not> n \<le> 50 then Inl (LessThanEqual ''limit'')
          else Inr n)"

definition SearchQuery_validate :: "SearchQuery_body \<Rightarrow> exn + SearchQuery" where
  "SearchQuery_validate b =
     (let q = SearchQuery_query (body_query b);
          u = min_length_1 ''user_id'' (body_search_user_id b);
          l = SearchQuery_limit (body_limit b)
      in case (q, u, l) of
           (Inr q', Inr u', Inr l') \<Rightarrow> Inr \<lparr>query = q', search_user_id = u', limit = l'\<rparr>
         | _ \<Rightarrow> Inl (RequestValidationError (errors_of q @ errors_of u @ errors_of l)))"

text \<open>
  \<^verbatim>\<open>NoteResponse(**d)\<close>: every field is required, \<^verbatim>\<open>id\<close> is read from \<^verbatim>\<open>_id\<close>
  (or from \<^verbatim>\<open>id\<close>, by \<^verbatim>\<open>populate_by_name\<close>), other keys are ignored. A missing
  field or a value of another kind raises pydantic's \<open>ValidationError\<close>.
\<close>

record NoteResponse =
  nr_id :: string
  nr_title :: string
  nr_content :: string
  nr_user_id :: string
  nr_tags :: "string list"
  nr_created_at :: int
  nr_updated_at :: int

definition str_field :: "doc \<Rightarrow> string \<Rightarrow> string option" where
  "str_field d k = (case d k of Some (BStr s) \<Rightarrow> Some s | _ \<Rightarrow> None)"

definition strs_field :: "doc \<Rightarrow> string \<Rightarrow> string list option" where
  "strs_field d k = (case d k of Some (BStrs ss) \<Rightarrow> Some ss | _ \<Rightarrow> None)"

definition date_field :: "doc \<Rightarrow> string \<Rightarrow> int option" where
  "date_field d k = (case d k of Some (BDate t) \<Rightarrow> Some t | _ \<Rightarrow> None)"

definition id_field :: "doc \<Rightarrow> string option" where
  "id_field d = (case d ''_id'' of None \<Rightarrow> str_field d ''id'' | Some v \<Rightarrow> str_field d ''_id'')"

definition NoteResponse_of :: "doc \<Rightarrow> exn + NoteResponse" where
  "NoteResponse_of d =
     (case id_field d of None \<Rightarrow> Inl (ValidationError (Text ''id'')) | Some i \<Rightarrow>
      case str_field d ''title'' of None \<Rightarrow> Inl (ValidationError (Text ''title'')) | Some t \<Rightarrow>
      case str_field d ''content'' of None \<Rightarrow> Inl (ValidationError (Text ''content'')) | Some c \<Rightarrow>
      case str_field d ''user_id'' of None \<Rightarrow> Inl (ValidationError (Text ''user_id'')) | Some u \<Rightarrow>
      case strs_field d ''tags'' of None \<Rightarrow> Inl (ValidationError (Text ''tags'')) | Some ts \<Rightarrow>
      case date_field d ''created_at'' of None \<Rightarrow> Inl (ValidationError (Text ''created_at'')) | Some ca \<Rightarrow>
      case date_field d ''updated_at'' of None \<Rightarrow> Inl (ValidationError (Text ''updated_at'')) | Some ua \<Rightarrow>
        Inr \<lparr>nr_id = i, nr_title = t, nr_content = c, nr_user_id = u, nr_tags = ts,
             nr_created_at = ca, nr_updated_at = ua\<rparr>)"

record SearchResult =
  sr_note :: NoteResponse
  sr_score :: real

record SearchResponse =
  results :: "SearchResult list"
  response_query :: string
  count :: nat
  search_time_ms :: real

subsection \<open>Embedding service (\<^verbatim>\<open>services/gemini_service.py\<close>)\<close>

definition generate_embedding :: "provider \<Rightarrow> world \<Rightarrow> string \<Rightarrow> (exn + real list) \<times> world" where
  "generate_embedding P w text =
     (let req = \<lparr>er_model = gemini_embedding_model, er_content = text,
                 er_task_type = ''retrieval_document'', er_title = None\<rparr>;
          w1 = w\<lparr>embed_calls := embed_calls w @ [req]\<rparr>;
          attempt =
            (case P req of
               Inl e \<Rightarrow> Inl e
             | Inr embedding \<Rightarrow>
                 if int (length embedding) \<noteq> gemini_embedding_dimensions
                 then Inl (ValueError (ExpectedGot gemini_embedding_dimensions (length embedding)))
                 else Inr embedding)
      in case attempt of
           Inl e \<Rightarrow> (Inl (Exception (Prefixed ''Failed to generate embedding'' (str_exn e))), w1)
         | Inr embedding \<Rightarrow> (Inr embedding, w1))"

definition generate_note_embedding ::
  "provider \<Rightarrow> world \<Rightarrow> string \<Rightarrow> string \<Rightarrow> string list \<Rightarrow> (exn + real list) \<times> world" where
  "generate_note_embedding P w ttl cnt tgs =
     (let combined_text = ttl @ [LF, LF] @ cnt;
          combined_text =
            (if tgs \<noteq> []
             then (let tags_text = py_join '', '' tgs
                   in combined_text @ [LF, LF] @ ''Tags: '' @ tags_text)
             else combined_text)
      in generate_embedding P w combined_text)"

definition generate_query_embedding :: "provider \<Rightarrow> world \<Rightarrow> string \<Rightarrow> (exn + real list) \<times> world" where
  "generate_query_embedding P w q =
     (let req = \<lparr>er_model = gemini_embedding_model, er_content = q,
                 er_task_type = ''retrieval_query'', er_title = None\<rparr>;
          w1 = w\<lparr>embed_calls := embed_calls w @ [req]\<rparr>;
          attempt =
            (case P req of
               Inl e \<Rightarrow> Inl e
             | Inr embedding \<Rightarrow>
                 if int (length embedding) \<noteq> gemini_embedding_dimensions
                 then Inl (ValueError (ExpectedGot gemini_embedding_dimensions (length embedding)))
                 else Inr embedding)
      in case attempt of
           Inl e \<Rightarrow> (Inl (Exception (Prefixed ''Failed to generate query embedding'' (str_exn e))), w1)
         | Inr embedding \<Rightarrow> (Inr embedding, w1))"

subsection \<open>Repository (\<^verbatim>\<open>services/mongodb_service.py\<close>, class \<^verbatim>\<open>MongoDBService\<close>)\<close>

text \<open>
  \<^verbatim>\<open>d["_id"] = str(d["_id"])\<close>. An \<^verbatim>\<open>_id\<close> is an ObjectId or a string; the
  rendering of other kinds of value is not modelled.
\<close>

fun py_str :: "bson \<Rightarrow> string" where
  "py_str (BId i) = str_ObjectId i"
| "py_str (BStr s) = s"
| "py_str v = []"

definition set_id_str :: "doc \<Rightarrow> exn + doc" where
  "set_id_str d =
     (case d ''_id'' of
        None \<Rightarrow> Inl (KeyError (Text ''_id''))
      | Some v \<Rightarrow> Inr (d(''_id'' \<mapsto> BStr (py_str v))))"

text \<open>A \<^verbatim>\<open>for\<close> loop or comprehension whose body may raise: the first error ends it.\<close>

fun map_sum :: "('a \<Rightarrow> exn + 'b) \<Rightarrow> 'a list \<Rightarrow> exn + 'b list" where
  "map_sum f [] = Inr []"
| "map_sum f (x # xs) =
     (case f x of
        Inl e \<Rightarrow> Inl e
      | Inr y \<Rightarrow> (case map_sum f xs of Inl e \<Rightarrow> Inl e | Inr ys \<Rightarrow> Inr (y # ys)))"

definition MongoDBService_create_note ::
  "world \<Rightarrow> string \<Rightarrow> string \<Rightarrow> string \<Rightarrow> string list \<Rightarrow> real list \<Rightarrow> (exn + string) \<times> world" where
  "MongoDBService_create_note w ttl cnt uid tgs embedding =
     (case utcnow w of
        (now, w0) \<Rightarrow>
          (let note_doc =
                 [''title'' \<mapsto> BStr ttl,
                  ''content'' \<mapsto> BStr cnt,
                  ''user_id'' \<mapsto> BStr uid,
                  ''tags'' \<mapsto> BStrs tgs,
                  ''embedding'' \<mapsto> BFloats embedding,
                  ''created_at'' \<mapsto> BDate now,
                  ''updated_at'' \<mapsto> BDate now]
           in case insert_one w0 note_doc of
                (Inl e, w1) \<Rightarrow> (Inl e, w1)
              | (Inr inserted_id, w1) \<Rightarrow> (Inr (str_ObjectId inserted_id), w1)))"

definition MongoDBService_get_note :: "world \<Rightarrow> string \<Rightarrow> (exn + doc option) \<times> world" where
  "MongoDBService_get_note w note_id =
     (let attempt =
            (case ObjectId note_id of
               Inl e \<Rightarrow> (Inl e, w)
             | Inr oid \<Rightarrow>
                 (case find_one w (FieldIs ''_id'' (BId oid)) of
                    (Inl e, w1) \<Rightarrow> (Inl e, w1)
                  | (Inr None, w1) \<Rightarrow> (Inr None, w1)
                  | (Inr (Some nt), w1) \<Rightarrow>
                      (case set_id_str nt of
                         Inl e \<Rightarrow> (Inl e, w1)
                       | Inr nt' \<Rightarrow> (Inr (Some nt'), w1))))
      in case attempt of
           (Inl e, w1) \<Rightarrow> (Inr None, w1)
         | (Inr r, w1) \<Rightarrow> (Inr r, w1))"

text \<open>The \<^verbatim>\<open>pipeline = [...]\<close> that \<^verbatim>\<open>vector_search\<close> builds.\<close>

definition vector_search_pipeline :: "real list \<Rightarrow> string \<Rightarrow> int \<Rightarrow> stage list" where
  "vector_search_pipeline query_embedding uid lmt =
     [VectorSearch
        \<lparr>vs_index = mongodb_vector_index_name,
         vs_path = ''embedding'',
         vs_queryVector = query_embedding,
         vs_numCandidates = vector_search_num_candidates,
         vs_limit = lmt,
         vs_filter = FieldEq ''user_id'' (BStr uid)\<rparr>,
      Project
        [(''_id'', Include),
         (''title'', Include),
         (''content'', Include),
         (''user_id'', Include),
         (''tags'', Include),
         (''created_at'', Include),
         (''updated_at'', Include),
         (''score'', MetaVectorSearchScore)]]"

definition MongoDBService_vector_search ::
  "similarity \<Rightarrow> world \<Rightarrow> real list \<Rightarrow> string \<Rightarrow> int \<Rightarrow> (exn + doc list) \<times> world" where
  "MongoDBService_vector_search sim w query_embedding uid lmt =
     (let pipeline = vector_search_pipeline query_embedding uid lmt;
          attempt =
            (case aggregate_to_list sim w pipeline lmt of
               (Inl e, w1) \<Rightarrow> (Inl e, w1)
             | (Inr rs, w1) \<Rightarrow> (map_sum set_id_str rs, w1))
      in case attempt of
           (Inl e, w1) \<Rightarrow> (Inl (Exception (Prefixed ''Vector search failed'' (str_exn e))), w1)
         | (Inr rs, w1) \<Rightarrow> (Inr rs, w1))"

definition MongoDBService_list_notes :: "world \<Rightarrow> string \<Rightarrow> int \<Rightarrow> (exn + doc list) \<times> world" where
  "MongoDBService_list_notes w uid lmt =
     (let cur = cursor_limit
                  (cursor_sort
                     (collection_find (FieldIs ''user_id'' (BStr uid)) [''embedding''])
                     ''updated_at'' (- 1))
                  lmt
      in case cursor_to_list w cur lmt of
           (Inl e, w1) \<Rightarrow> (Inl e, w1)
         | (Inr notes, w1) \<Rightarrow> (map_sum set_id_str notes, w1))"

subsection \<open>Route handlers (\<^verbatim>\<open>routes/notes.py\<close>)\<close>

text \<open>
  Each handler is a \<^verbatim>\<open>try\<close> body followed by its two \<^verbatim>\<open>except\<close> clauses. The
  framework validates the body against the request model first and answers 422 without
  calling the handler when that fails (\<open>POST_api_notes\<close>, \<open>POST_api_search\<close>).
\<close>

definition create_note_except :: "exn \<Rightarrow> exn" where
  "create_note_except e =
     (if is_ValueError e then HTTPException 422 (str_exn e)
      else HTTPException 500 (Prefixed ''Failed to create note'' (str_exn e)))"

definition create_note :: "provider \<Rightarrow> world \<Rightarrow> NoteCreate \<Rightarrow> (exn + NoteResponse) \<times> world" where
  "create_note P w nt =
     (let attempt =
            (case generate_note_embedding P w (title nt) (content nt) (tags nt) of
               (Inl e, w1) \<Rightarrow> (Inl e, w1)
             | (Inr embedding, w1) \<Rightarrow>
                 (case MongoDBService_create_note w1 (title nt) (content nt) (user_id nt)
                         (tags nt) embedding of
                    (Inl e, w2) \<Rightarrow> (Inl e, w2)
                  | (Inr note_id, w2) \<Rightarrow>
                      (case MongoDBService_get_note w2 note_id of
                         (Inl e, w3) \<Rightarrow> (Inl e, w3)
                       | (Inr None, w3) \<Rightarrow>
                           (Inl (HTTPException 500 (Text ''Failed to retrieve created note'')), w3)
                       | (Inr (Some created_note), w3) \<Rightarrow> (NoteResponse_of created_note, w3))))
      in case attempt of
           (Inl e, w') \<Rightarrow> (Inl (create_note_except e), w')
         | (Inr r, w') \<Rightarrow> (Inr r, w'))"

definition POST_api_notes ::
  "provider \<Rightarrow> world \<Rightarrow> NoteCreate_body \<Rightarrow> (exn + NoteResponse) \<times> world" where
  "POST_api_notes P w b =
     (case NoteCreate_validate b of
        Inl e \<Rightarrow> (Inl e, w)
      | Inr nt \<Rightarrow> create_note P w nt)"

definition time_time :: "world \<Rightarrow> int \<times> world" where
  "time_time w = (clock w, w\<lparr>clock := clock w + 1\<rparr>)"

definition SearchResult_of :: "doc \<Rightarrow> exn + SearchResult" where
  "SearchResult_of result =
     (case NoteResponse_of result of
        Inl e \<Rightarrow> Inl e
      | Inr n \<Rightarrow>
          (case result ''score'' of
             None \<Rightarrow> Inr \<lparr>sr_note = n, sr_score = 0\<rparr>
           | Some (BFloat s) \<Rightarrow> Inr \<lparr>sr_note = n, sr_score = s\<rparr>
           | Some v \<Rightarrow> Inl (ValidationError (Text ''score''))))"

definition search_notes_except :: "exn \<Rightarrow> exn" where
  "search_notes_except e =
     (if is_ValueError e then HTTPException 422 (str_exn e)
      else HTTPException 500 (Prefixed ''Search failed'' (str_exn e)))"

definition search_notes ::
  "provider \<Rightarrow> similarity \<Rightarrow> world \<Rightarrow> SearchQuery \<Rightarrow> (exn + SearchResponse) \<times> world" where
  "search_notes P sim w q =
     (case time_time w of
        (start_time, w0) \<Rightarrow>
          (let attempt =
                 (case generate_query_embedding P w0 (query q) of
                    (Inl e, w1) \<Rightarrow> (Inl e, w1)
                  | (Inr query_embedding, w1) \<Rightarrow>
                      (case MongoDBService_vector_search sim w1 query_embedding
                              (search_user_id q) (limit q) of
                         (Inl e, w2) \<Rightarrow> (Inl e, w2)
                       | (Inr rs, w2) \<Rightarrow>
                           (case map_sum SearchResult_of rs of
                              Inl e \<Rightarrow> (Inl e, w2)
                            | Inr search_results \<Rightarrow>
                                (case time_time w2 of
                                   (t, w3) \<Rightarrow>
                                     (Inr \<lparr>results = search_results,
                                           response_query = query q,
                                           count = length search_results,
                                           search_time_ms = real_of_int ((t - start_time) * 1000)\<rparr>,
                                      w3)))))
           in case attempt of
                (Inl e, w') \<Rightarrow> (Inl (search_notes_except e), w')
              | (Inr r, w') \<Rightarrow> (Inr r, w')))"

definition POST_api_search ::
  "provider \<Rightarrow> similarity \<Rightarrow> world \<Rightarrow> SearchQuery_body \<Rightarrow> (exn + SearchResponse) \<times> world" where
  "POST_api_search P sim w b =
     (case SearchQuery_validate b of
        Inl e \<Rightarrow> (Inl e, w)
      | Inr q \<Rightarrow> search_notes P sim w q)"

definition list_user_notes :: "world \<Rightarrow> string \<Rightarrow> int \<Rightarrow> (exn + NoteResponse list) \<times> world" where
  "list_user_notes w uid lmt =
     (let attempt =
            (case MongoDBService_list_notes w uid lmt of
               (Inl e, w1) \<Rightarrow> (Inl e, w1)
             | (Inr notes, w1) \<Rightarrow> (map_sum NoteResponse_of notes, w1))
      in case attempt of
           (Inl e, w') \<Rightarrow> (Inl (HTTPException 500 (Prefixed ''Failed to list notes'' (str_exn e))), w')
         | (Inr r, w') \<Rightarrow> (Inr r, w'))"

subsection \<open>Vocabulary of the statements\<close>

text \<open>
  The embedding source text in the specification's words: title, a blank line, content
  and, only for a non-empty tag list, a further blank line and the line \<^verbatim>\<open>Tags: \<close>
  followed by the first tag and then every further tag preceded by comma and space.
\<close>

definition embedding_text :: "string \<Rightarrow> string \<Rightarrow> string list \<Rightarrow> string" where
  "embedding_text ttl cnt tgs =
     ttl @ [LF, LF] @ cnt @
     (case tgs of
        [] \<Rightarrow> []
      | t # ts \<Rightarrow> [LF, LF] @ ''Tags: '' @ t @ concat (map (\<lambda>x. '', '' @ x) ts))"

text \<open>The provider request for a text in document mode and in query mode.\<close>

definition document_request :: "string \<Rightarrow> embed_request" where
  "document_request text =
     \<lparr>er_model = gemini_embedding_model, er_content = text,
      er_task_type = ''retrieval_document'', er_title = None\<rparr>"

definition query_request :: "string \<Rightarrow> embed_request" where
  "query_request text =
     \<lparr>er_model = gemini_embedding_model, er_content = text,
      er_task_type = ''retrieval_query'', er_title = None\<rparr>"

text \<open>The store answers the next \<open>n\<close> round trips: none of them is scheduled to fail.\<close>

definition answers :: "nat \<Rightarrow> world \<Rightarrow> bool" where
  "answers n w = (True \<notin> set (take n (faults w)))"

text \<open>The result caps that a pipeline asks of the store, one for each search stage.\<close>

fun stage_limits :: "stage \<Rightarrow> int list" where
  "stage_limits (VectorSearch a) = [vs_limit a]"
| "stage_limits (Project spec) = []"

definition pipeline_limits :: "stage list \<Rightarrow> int list" where
  "pipeline_limits pl = concat (map stage_limits pl)"

text \<open>A list in non-increasing order.\<close>

definition descending :: "'a::linorder list \<Rightarrow> bool" where
  "descending xs = sorted_wrt (\<lambda>a b. b \<le> a) xs"

text \<open>The documents of a user in a collection.\<close>

definition notes_of :: "string \<Rightarrow> doc list \<Rightarrow> doc list" where
  "notes_of uid ds = filter (\<lambda>d. d ''user_id'' = Some (BStr uid)) ds"

text \<open>The cursor that \<open>list_notes\<close> builds.\<close>

definition list_cursor :: "string \<Rightarrow> int \<Rightarrow> cursor" where
  "list_cursor uid lmt =
     \<lparr>cur_filter = FieldIs ''user_id'' (BStr uid), cur_exclude = [''embedding''],
      cur_sort = Some (''updated_at'', - 1), cur_limit = lmt\<rparr>"

text \<open>The document that \<open>create_note\<close> has the store insert, with the id it receives.\<close>

definition stored_note ::
  "object_id \<Rightarrow> string \<Rightarrow> string \<Rightarrow> string \<Rightarrow> string list \<Rightarrow> real list \<Rightarrow> int \<Rightarrow> doc" where
  "stored_note i ttl cnt uid tgs emb now =
     [''title'' \<mapsto> BStr ttl, ''content'' \<mapsto> BStr cnt, ''user_id'' \<mapsto> BStr uid,
      ''tags'' \<mapsto> BStrs tgs, ''embedding'' \<mapsto> BFloats emb, ''created_at'' \<mapsto> BDate now,
      ''updated_at'' \<mapsto> BDate now, ''_id'' \<mapsto> BId i]"

text \<open>
  A document carries a vector; the score metadata a returned document shows; the shape
  of the documents \<open>create_note\<close> writes, as far as a response needs it.
\<close>

definition has_vector :: "doc \<Rightarrow> bool" where
  "has_vector d = (case d ''embedding'' of Some (BFloats v) \<Rightarrow> True | _ \<Rightarrow> False)"

definition score_of :: "doc \<Rightarrow> real option" where
  "score_of d = (case d ''score'' of Some (BFloat s) \<Rightarrow> Some s | _ \<Rightarrow> None)"

definition note_shaped :: "doc \<Rightarrow> bool" where
  "note_shaped d =
     ((case d ''_id'' of Some (BId i) \<Rightarrow> True | _ \<Rightarrow> False) \<and>
      str_field d ''title'' \<noteq> None \<and> str_field d ''content'' \<noteq> None \<and>
      str_field d ''user_id'' \<noteq> None \<and> strs_field d ''tags'' \<noteq> None \<and>
      date_field d ''created_at'' \<noteq> None \<and> date_field d ''updated_at'' \<noteq> None)"

text \<open>
  A response entry shows a document the store returned: the entry's id is the document's
  id rendered as a string, every other field of its note is the document's field of that
  name, and its score is the document's score.
\<close>

definition shows_document :: "doc \<Rightarrow> SearchResult \<Rightarrow> bool" where
  "shows_document d sr =
     (map_option py_str (d ''_id'') = Some (nr_id (sr_note sr)) \<and>
      d ''title'' = Some (BStr (nr_title (sr_note sr))) \<and>
      d ''content'' = Some (BStr (nr_content (sr_note sr))) \<and>
      d ''user_id'' = Some (BStr (nr_user_id (sr_note sr))) \<and>
      d ''tags'' = Some (BStrs (nr_tags (sr_note sr))) \<and>
      d ''created_at'' = Some (BDate (nr_created_at (sr_note sr))) \<and>
      d ''updated_at'' = Some (BDate (nr_updated_at (sr_note sr))) \<and>
      d ''score'' = Some (BFloat (sr_score sr)))"

text \<open>The ranking of the store model: the user's documents that carry a vector, scored.\<close>

definition ranked :: "similarity \<Rightarrow> real list \<Rightarrow> string \<Rightarrow> doc list \<Rightarrow> item list" where
  "ranked sim qe uid ds =
     rev (sort_key snd
       (map (\<lambda>d. (d, case d ''embedding'' of Some (BFloats v) \<Rightarrow> Some (sim qe v) | _ \<Rightarrow> None))
          (filter has_vector (notes_of uid ds))))"

text \<open>The \<^verbatim>\<open>$project\<close> stage of \<open>vector_search\<close>.\<close>

definition search_projection :: "(string \<times> projection) list" where
  "search_projection =
     [(''_id'', Include), (''title'', Include), (''content'', Include), (''user_id'', Include),
      (''tags'', Include), (''created_at'', Include), (''updated_at'', Include),
      (''score'', MetaVectorSearchScore)]"

subsection \<open>Example inputs\<close>

text \<open>
  An empty collection on a store that answers, a provider that returns a vector of a given
  length for every request, a similarity, and the note and query of the specification's
  scenario.
\<close>

definition empty_world :: world where
  "empty_world =
     \<lparr>collection = [], oid_counter = 1, faults = [], clock = 1000, embed_calls = [],
      aggregate_calls = []\<rparr>"

definition constant_provider :: "nat \<Rightarrow> provider" where
  "constant_provider n req = Inr (replicate n (1 / 2))"

definition first_component :: similarity where
  "first_component q v = (case v of [] \<Rightarrow> 0 | x # xs \<Rightarrow> x)"

definition kyoto :: NoteCreate where
  "kyoto =
     \<lparr>title = ''Trip to Kyoto'', content = ''Visited temples and gardens.'',
      user_id = ''u1'', tags = [''travel'']\<rparr>"

text \<open>
  A collection with notes of two users: user \<open>u2\<close>'s note is the most similar to any
  query under \<open>first_component\<close>.
\<close>

definition two_users_world :: world where
  "two_users_world =
     \<lparr>collection =
        [stored_note (new_ObjectId 1) ''A'' ''temples'' ''u1'' [] [9 / 10] 10,
         stored_note (new_ObjectId 2) ''B'' ''temples'' ''u2'' [] [99 / 100] 20,
         stored_note (new_ObjectId 3) ''C'' ''gardens'' ''u1'' [''travel''] [1 / 2] 30],
      oid_counter = 4, faults = [], clock = 40, embed_calls = [], aggregate_calls = []\<rparr>"

section \<open>Properties\<close>

subsection \<open>ObjectId rendering and parsing\<close>

lemma hexval_hexchar: "n < 16 \<Longrightarrow> hexval (hexchar n) = Some n"
proof -
  assume "n < 16"
  then have "n \<in> {0,1,2,3,4,5,6,7,8,9,10,11,12,13,14,15}"
    by simp arith
  then show ?thesis
    by (auto simp: hexval_def hexchar_def)
qed

lemma hexchar_not_space: "n < 16 \<Longrightarrow> \<not> ascii_space (hexchar n)"
proof -
  assume "n < 16"
  then have "n \<in> {0,1,2,3,4,5,6,7,8,9,10,11,12,13,14,15}"
    by simp arith
  then show ?thesis
    by (auto simp: ascii_space_def hexchar_def)
qed

lemma fromhex_hex_byte: "fromhex (hex_byte b @ rest) = map_option ((#) b) (fromhex rest)"
proof -
  have "unat b < 2 ^ 8"
    using unsigned_less [of b] by simp
  then have h: "unat b div 16 < 16" "unat b mod 16 < 16"
    by simp_all
  have "(word_of_nat (16 * (unat b div 16) + unat b mod 16) :: 8 word) = b"
    by simp
  then show ?thesis
    using h by (simp add: hex_byte_def hexchar_not_space hexval_hexchar)
qed

lemma fromhex_str: "fromhex (str_ObjectId i) = Some i"
  by (induction i) (simp_all add: str_ObjectId_def fromhex_hex_byte)

lemma length_str_ObjectId: "length (str_ObjectId i) = 2 * length i"
  by (induction i) (simp_all add: str_ObjectId_def hex_byte_def)

lemma ObjectId_str: "length i = 12 \<Longrightarrow> ObjectId (str_ObjectId i) = Inr i"
  by (simp add: ObjectId_def length_str_ObjectId fromhex_str)

lemma length_new_ObjectId: "length (new_ObjectId c) = 12"
  by (simp add: new_ObjectId_def)

subsection \<open>Blank text\<close>

lemma dropWhile_all: "(\<forall>c\<in>set s. P c) \<Longrightarrow> dropWhile P s = []"
  by (induction s) auto

lemma py_strip_blank: "(\<forall>c\<in>set s. py_isspace c) \<Longrightarrow> py_strip s = []"
  by (simp add: py_strip_def dropWhile_all)

subsection \<open>The fault schedule\<close>

lemma next_fault_eq:
  "next_fault w = (faults w \<noteq> [] \<and> hd (faults w), w\<lparr>faults := tl (faults w)\<rparr>)"
  by (cases w) (simp add: next_fault_def split: list.splits)

subsection \<open>Request validation\<close>

lemma NoteCreate_title_blank:
  "(\<forall>c\<in>set v. py_isspace c) \<Longrightarrow> \<exists>e. NoteCreate_title v = Inl e"
  by (simp add: NoteCreate_title_def validate_title_def py_strip_blank)

lemma NoteCreate_content_blank:
  "(\<forall>c\<in>set v. py_isspace c) \<Longrightarrow> \<exists>e. NoteCreate_content v = Inl e"
  by (simp add: NoteCreate_content_def validate_content_def py_strip_blank)

lemma NoteCreate_validate_blank:
  assumes "(\<forall>c\<in>set (body_title b). py_isspace c) \<or> (\<forall>c\<in>set (body_content b). py_isspace c)"
  shows "\<exists>errs. errs \<noteq> [] \<and> NoteCreate_validate b = Inl (RequestValidationError errs)"
  using assms
proof
  assume "\<forall>c\<in>set (body_title b). py_isspace c"
  then obtain e where "NoteCreate_title (body_title b) = Inl e"
    using NoteCreate_title_blank by blast
  then show ?thesis
    by (simp add: NoteCreate_validate_def errors_of_def Let_def split: sum.splits)
next
  assume "\<forall>c\<in>set (body_content b). py_isspace c"
  then obtain e where "NoteCreate_content (body_content b) = Inl e"
    using NoteCreate_content_blank by blast
  then show ?thesis
    by (simp add: NoteCreate_validate_def errors_of_def Let_def split: sum.splits)
qed

text \<open>
  Claim C4. A request to create a note whose title or content is empty or consists of
  white space only is answered with a validation error (status 422); the handler does not
  run, so the world is returned as it was: no document is written and the embedding
  provider is not called.
\<close>

theorem ingest_rejects_blank_text:
  assumes "(\<forall>c\<in>set (body_title b). py_isspace c) \<or> (\<forall>c\<in>set (body_content b). py_isspace c)"
  shows "\<exists>errs. errs \<noteq> [] \<and>
           POST_api_notes P w b = (Inl (RequestValidationError errs), w) \<and>
           http_status (RequestValidationError errs) = 422"
proof -
  obtain errs where "errs \<noteq> []" "NoteCreate_validate b = Inl (RequestValidationError errs)"
    using NoteCreate_validate_blank [OF assms] by blast
  then show ?thesis
    by (simp add: POST_api_notes_def)
qed

theorem ingest_rejects_blank_text_witness:
  "((\<forall>c\<in>set ''   ''. py_isspace c) \<or> (\<forall>c\<in>set ''test''. py_isspace c)) \<and>
   (\<exists>errs. errs \<noteq> [] \<and>
      POST_api_notes (\<lambda>r. Inr [])
        \<lparr>collection = [], oid_counter = 0, faults = [], clock = 0, embed_calls = [],
         aggregate_calls = []\<rparr>
        \<lparr>body_title = ''   '', body_content = ''test'', body_user_id = ''test_user_123'',
         body_tags = None\<rparr>
      = (Inl (RequestValidationError errs),
         \<lparr>collection = [], oid_counter = 0, faults = [], clock = 0, embed_calls = [],
          aggregate_calls = []\<rparr>))"
proof -
  have h: "(\<forall>c\<in>set (body_title \<lparr>body_title = ''   '', body_content = ''test'', body_user_id = ''test_user_123'',
         body_tags = None\<rparr>). py_isspace c) \<or> (\<forall>c\<in>set (body_content \<lparr>body_title = ''   '', body_content = ''test'', body_user_id = ''test_user_123'',
         body_tags = None\<rparr>). py_isspace c)"
    by (simp add: py_isspace_def)
  show ?thesis
    using ingest_rejects_blank_text [OF h, of "\<lambda>r. Inr []" "\<lparr>collection = [], oid_counter = 0, faults = [], clock = 0, embed_calls = [],
         aggregate_calls = []\<rparr>"]
    by (simp add: py_isspace_def)
qed

lemma find_one_eq:
  "find_one w c =
     (if fst (next_fault w) then (Inl (PyMongoError (Text ''find_one failed'')), w\<lparr>faults := tl (faults w)\<rparr>)
      else (Inr (find (matches c) (collection w)), w\<lparr>faults := tl (faults w)\<rparr>))"
  by (simp add: find_one_def next_fault_eq bool.case_eq_if)

subsection \<open>Fetching a note by id\<close>

lemma get_note_malformed:
  "ObjectId s = Inl e \<Longrightarrow> MongoDBService_get_note w s = (Inr None, w)"
  by (simp add: MongoDBService_get_note_def)

lemma get_note_fault:
  "fst (next_fault w) \<Longrightarrow> fst (MongoDBService_get_note w s) = Inr None"
  by (cases "ObjectId s") (simp_all add: MongoDBService_get_note_def find_one_eq)

lemma find_None_list_ex: "find Q xs = None \<longleftrightarrow> \<not> list_ex Q xs"
  by (induction xs) auto

lemma get_note_missing:
  "ObjectId s = Inr i \<Longrightarrow> \<not> list_ex (matches (FieldIs ''_id'' (BId i))) (collection w) \<Longrightarrow>
   fst (MongoDBService_get_note w s) = Inr None"
  by (simp add: MongoDBService_get_note_def find_one_eq find_None_list_ex [symmetric]
      del: matches.simps)

lemma get_note_found:
  assumes "ObjectId s = Inr i" and "\<not> fst (next_fault w)"
    and "find (matches (FieldIs ''_id'' (BId i))) (collection w) = Some d"
  shows "MongoDBService_get_note w s =
           (Inr (Some (d(''_id'' \<mapsto> BStr (str_ObjectId i)))), w\<lparr>faults := tl (faults w)\<rparr>)"
proof -
  have "matches (FieldIs ''_id'' (BId i)) d"
    using assms(3) by (auto simp: find_Some_iff)
  then have "set_id_str d = Inr (d(''_id'' \<mapsto> BStr (str_ObjectId i)))"
    by (simp add: set_id_str_def)
  then show ?thesis
    using assms by (simp add: MongoDBService_get_note_def find_one_eq del: matches.simps)
qed

lemma get_note_total: "\<exists>r w'. MongoDBService_get_note w s = (Inr r, w')"
  by (auto simp: MongoDBService_get_note_def Let_def split: sum.splits prod.splits option.splits)

lemma create_note_read_back_None:
  assumes "generate_note_embedding P w (title nt) (content nt) (tags nt) = (Inr emb, w1)"
    and "MongoDBService_create_note w1 (title nt) (content nt) (user_id nt) (tags nt) emb = (Inr nid, w2)"
    and "fst (MongoDBService_get_note w2 nid) = Inr None"
  shows "fst (create_note P w nt) =
           Inl (HTTPException 500 (Prefixed ''Failed to create note''
                  (StatusDetail 500 (Text ''Failed to retrieve created note''))))"
  using assms
  by (cases "MongoDBService_get_note w2 nid") (simp add: create_note_def create_note_except_def)

text \<open>
  Claim C10. \<open>get_note\<close> never raises: for every world and every identifier string it
  returns a value. A malformed identifier gives \<open>None\<close> without a round trip, a failing
  round trip gives \<open>None\<close>, and so does an identifier no document carries; a failed read
  and a missing note are therefore the same answer. After a successful insert, a failing
  read-back makes \<open>create_note\<close> answer exactly as for a note that was not found.
\<close>

theorem get_note_never_raises:
  "(\<exists>r w'. MongoDBService_get_note w s = (Inr r, w')) \<and>
   (\<forall>e. ObjectId s = Inl e \<longrightarrow> MongoDBService_get_note w s = (Inr None, w)) \<and>
   (fst (next_fault w) \<longrightarrow> fst (MongoDBService_get_note w s) = Inr None) \<and>
   (\<forall>i. ObjectId s = Inr i \<longrightarrow>
        \<not> list_ex (matches (FieldIs ''_id'' (BId i))) (collection w) \<longrightarrow>
        fst (MongoDBService_get_note w s) = Inr None) \<and>
   (\<forall>P w0 nt emb w1.
        generate_note_embedding P w0 (title nt) (content nt) (tags nt) = (Inr emb, w1) \<longrightarrow>
        MongoDBService_create_note w1 (title nt) (content nt) (user_id nt) (tags nt) emb = (Inr s, w) \<longrightarrow>
        fst (next_fault w) \<longrightarrow>
        fst (create_note P w0 nt) =
          Inl (HTTPException 500 (Prefixed ''Failed to create note''
                 (StatusDetail 500 (Text ''Failed to retrieve created note'')))))"
  using get_note_total [of w s] get_note_malformed [of s _ w] get_note_fault [of w s]
    get_note_missing [of s _ w] create_note_read_back_None [of _ _ _ _ _ s w]
  by blast


subsection \<open>Creating a note\<close>

lemma insert_one_eq:
  "insert_one w d =
     (if fst (next_fault w)
      then (Inl (PyMongoError (Text ''insert_one failed'')), w\<lparr>faults := tl (faults w)\<rparr>)
      else if list_ex (matches (FieldIs ''_id'' (BId (new_ObjectId (oid_counter w))))) (collection w)
      then (Inl (PyMongoError (Text ''duplicate key'')),
            w\<lparr>faults := tl (faults w), oid_counter := oid_counter w + 1\<rparr>)
      else (Inr (new_ObjectId (oid_counter w)),
            w\<lparr>faults := tl (faults w), oid_counter := oid_counter w + 1,
              collection := collection w @ [d(''_id'' \<mapsto> BId (new_ObjectId (oid_counter w)))]\<rparr>))"
  by (simp add: insert_one_def next_fault_eq bool.case_eq_if Let_def del: matches.simps)

lemma snd_generate_embedding:
  "snd (generate_embedding P w text) =
     w\<lparr>embed_calls := embed_calls w @
          [\<lparr>er_model = gemini_embedding_model, er_content = text,
            er_task_type = ''retrieval_document'', er_title = None\<rparr>]\<rparr>"
  by (auto simp: generate_embedding_def Let_def split: sum.splits if_splits)

lemma db_create_note_Inr:
  assumes "MongoDBService_create_note w ttl cnt uid tgs emb = (Inr nid, w')"
  shows "\<exists>i d. nid = str_ObjectId i \<and> length i = 12 \<and>
           d = [''title'' \<mapsto> BStr ttl, ''content'' \<mapsto> BStr cnt, ''user_id'' \<mapsto> BStr uid,
                ''tags'' \<mapsto> BStrs tgs, ''embedding'' \<mapsto> BFloats emb,
                ''created_at'' \<mapsto> BDate (clock w), ''updated_at'' \<mapsto> BDate (clock w),
                ''_id'' \<mapsto> BId i] \<and>
           \<not> list_ex (matches (FieldIs ''_id'' (BId i))) (collection w) \<and>
           collection w' = collection w @ [d] \<and>
           faults w' = tl (faults w) \<and> embed_calls w' = embed_calls w \<and>
           aggregate_calls w' = aggregate_calls w"
  using assms
  by (auto simp: MongoDBService_create_note_def utcnow_def insert_one_eq next_fault_eq Let_def
      length_new_ObjectId simp del: matches.simps fun_upd_apply split: if_splits)

lemma find_append_new:
  "\<not> list_ex Q xs \<Longrightarrow> Q x \<Longrightarrow> find Q (xs @ [x]) = Some x"
  by (induction xs) auto

lemma create_note_Inr:
  assumes "create_note P w nt = (Inr resp, w')"
  shows "\<exists>emb w1 nid w2 d.
           generate_note_embedding P w (title nt) (content nt) (tags nt) = (Inr emb, w1) \<and>
           MongoDBService_create_note w1 (title nt) (content nt) (user_id nt) (tags nt) emb
             = (Inr nid, w2) \<and>
           MongoDBService_get_note w2 nid = (Inr (Some d), w') \<and>
           NoteResponse_of d = Inr resp"
  using assms
  by (auto simp: create_note_def Let_def split: prod.splits sum.splits option.splits)


lemma NoteResponse_of_Inr:
  assumes "NoteResponse_of d = Inr resp"
  shows "id_field d = Some (nr_id resp)"
    and "str_field d ''title'' = Some (nr_title resp)"
    and "str_field d ''content'' = Some (nr_content resp)"
    and "str_field d ''user_id'' = Some (nr_user_id resp)"
    and "strs_field d ''tags'' = Some (nr_tags resp)"
    and "date_field d ''created_at'' = Some (nr_created_at resp)"
    and "date_field d ''updated_at'' = Some (nr_updated_at resp)"
  using assms by (auto simp: NoteResponse_of_def split: option.splits)

text \<open>
  Claim C9. When \<open>create_note\<close> has returned a note and the next read reaches the store,
  \<open>get_note\<close> on the returned id finds a document whose title, content, tags (same
  list) and user id are those given, whose two timestamps are both the one clock reading
  taken at creation, and whose embedding is the vector the provider returned, equal to
  the stored one; the read leaves the collection as it was. The returned note carries the
  same fields.
\<close>

theorem ingest_then_get_round_trip:
  assumes "create_note P w nt = (Inr resp, w')" and "\<not> fst (next_fault w')"
  shows "\<exists>d w'' emb.
           MongoDBService_get_note w' (nr_id resp) = (Inr (Some d), w'') \<and>
           d ''title'' = Some (BStr (title nt)) \<and>
           d ''content'' = Some (BStr (content nt)) \<and>
           d ''tags'' = Some (BStrs (tags nt)) \<and>
           d ''user_id'' = Some (BStr (user_id nt)) \<and>
           d ''created_at'' = Some (BDate (clock w)) \<and>
           d ''updated_at'' = Some (BDate (clock w)) \<and>
           fst (generate_note_embedding P w (title nt) (content nt) (tags nt)) = Inr emb \<and>
           d ''embedding'' = Some (BFloats emb) \<and>
           last (collection w') ''embedding'' = Some (BFloats emb) \<and>
           collection w'' = collection w' \<and>
           nr_title resp = title nt \<and> nr_content resp = content nt \<and>
           nr_tags resp = tags nt \<and> nr_user_id resp = user_id nt \<and>
           nr_created_at resp = clock w \<and> nr_updated_at resp = clock w"
proof -
  obtain emb w1 nid w2 d where
    ge: "generate_note_embedding P w (title nt) (content nt) (tags nt) = (Inr emb, w1)" and
    cr: "MongoDBService_create_note w1 (title nt) (content nt) (user_id nt) (tags nt) emb
           = (Inr nid, w2)" and
    rd: "MongoDBService_get_note w2 nid = (Inr (Some d), w')" and
    nr: "NoteResponse_of d = Inr resp"
    using create_note_Inr [OF assms(1)] by blast
  have "w1 = snd (generate_note_embedding P w (title nt) (content nt) (tags nt))"
    using ge by simp
  then have ck: "clock w1 = clock w"
    by (simp add: generate_note_embedding_def snd_generate_embedding Let_def)
  obtain i d0 where
    nid: "nid = str_ObjectId i" and
    len: "length i = 12" and
    d0: "d0 = [''title'' \<mapsto> BStr (title nt), ''content'' \<mapsto> BStr (content nt),
               ''user_id'' \<mapsto> BStr (user_id nt), ''tags'' \<mapsto> BStrs (tags nt),
               ''embedding'' \<mapsto> BFloats emb, ''created_at'' \<mapsto> BDate (clock w1),
               ''updated_at'' \<mapsto> BDate (clock w1), ''_id'' \<mapsto> BId i]" and
    fresh: "\<not> list_ex (matches (FieldIs ''_id'' (BId i))) (collection w1)" and
    coll: "collection w2 = collection w1 @ [d0]"
    using db_create_note_Inr [OF cr] by blast
  have oid: "ObjectId nid = Inr i"
    by (simp add: nid ObjectId_str [OF len])
  have m0: "matches (FieldIs ''_id'' (BId i)) d0"
    by (simp add: d0)
  have found: "find (matches (FieldIs ''_id'' (BId i))) (collection w2) = Some d0"
    unfolding coll using fresh m0 by (intro find_append_new)
  have nf2: "\<not> fst (next_fault w2)"
    using get_note_fault [of w2 nid] rd by auto
  have rd2: "MongoDBService_get_note w2 nid =
               (Inr (Some (d0(''_id'' \<mapsto> BStr (str_ObjectId i)))), w2\<lparr>faults := tl (faults w2)\<rparr>)"
    by (rule get_note_found [OF oid nf2 found])
  have d: "d = d0(''_id'' \<mapsto> BStr nid)" and w': "w' = w2\<lparr>faults := tl (faults w2)\<rparr>"
    using rd rd2 nid by simp_all
  have coll': "collection w' = collection w2"
    by (simp add: w')
  have idr: "nr_id resp = nid"
    using NoteResponse_of_Inr(1) [OF nr] by (simp add: d id_field_def str_field_def)
  have found': "find (matches (FieldIs ''_id'' (BId i))) (collection w') = Some d0"
    using found coll' by simp
  have again: "MongoDBService_get_note w' (nr_id resp) =
                 (Inr (Some d), w'\<lparr>faults := tl (faults w')\<rparr>)"
    using get_note_found [OF oid assms(2) found'] by (simp add: idr d nid)
  have fields: "d ''title'' = Some (BStr (title nt))" "d ''content'' = Some (BStr (content nt))"
    "d ''tags'' = Some (BStrs (tags nt))" "d ''user_id'' = Some (BStr (user_id nt))"
    "d ''created_at'' = Some (BDate (clock w))" "d ''updated_at'' = Some (BDate (clock w))"
    "d ''embedding'' = Some (BFloats emb)"
    by (simp_all add: d d0 ck)
  have stored: "last (collection w') ''embedding'' = Some (BFloats emb)"
    by (simp add: coll' coll d0)
  have resp: "nr_title resp = title nt" "nr_content resp = content nt" "nr_tags resp = tags nt"
    "nr_user_id resp = user_id nt" "nr_created_at resp = clock w" "nr_updated_at resp = clock w"
    using NoteResponse_of_Inr [OF nr] fields
    by (simp_all add: str_field_def strs_field_def date_field_def)
  show ?thesis
    using again fields stored resp ge by simp
qed

subsection \<open>Embedding and effects of ingestion\<close>

lemma py_join_concat: "py_join sep (t # ts) = t @ concat (map (\<lambda>x. sep @ x) ts)"
  by (induction ts arbitrary: t) auto

lemma generate_note_embedding_text:
  "generate_note_embedding P w ttl cnt tgs = generate_embedding P w (embedding_text ttl cnt tgs)"
proof (cases tgs)
  case Nil
  then show ?thesis
    by (simp add: generate_note_embedding_def embedding_text_def)
next
  case (Cons t ts)
  have "generate_note_embedding P w ttl cnt (t # ts) =
          generate_embedding P w (ttl @ [LF, LF] @ cnt @ [LF, LF] @ ''Tags: '' @ py_join '', '' (t # ts))"
    by (simp add: generate_note_embedding_def Let_def del: py_join.simps)
  also have "\<dots> = generate_embedding P w (embedding_text ttl cnt (t # ts))"
    by (simp only: embedding_text_def py_join_concat list.case)
  finally show ?thesis
    by (simp only: Cons)
qed

lemma generate_embedding_eq:
  "generate_embedding P w text =
     ((case P (document_request text) of
         Inl e \<Rightarrow> Inl (Exception (Prefixed ''Failed to generate embedding'' (str_exn e)))
       | Inr emb \<Rightarrow>
           if int (length emb) \<noteq> gemini_embedding_dimensions
           then Inl (Exception (Prefixed ''Failed to generate embedding''
                       (ExpectedGot gemini_embedding_dimensions (length emb))))
           else Inr emb),
      w\<lparr>embed_calls := embed_calls w @ [document_request text]\<rparr>)"
  by (simp add: generate_embedding_def document_request_def Let_def split: sum.splits)

lemma generate_query_embedding_eq:
  "generate_query_embedding P w text =
     ((case P (query_request text) of
         Inl e \<Rightarrow> Inl (Exception (Prefixed ''Failed to generate query embedding'' (str_exn e)))
       | Inr emb \<Rightarrow>
           if int (length emb) \<noteq> gemini_embedding_dimensions
           then Inl (Exception (Prefixed ''Failed to generate query embedding''
                       (ExpectedGot gemini_embedding_dimensions (length emb))))
           else Inr emb),
      w\<lparr>embed_calls := embed_calls w @ [query_request text]\<rparr>)"
  by (simp add: generate_query_embedding_def query_request_def Let_def split: sum.splits)

lemma db_create_note_effect:
  assumes "MongoDBService_create_note w ttl cnt uid tgs emb = (r, w')"
  shows "embed_calls w' = embed_calls w"
    and "aggregate_calls w' = aggregate_calls w"
    and "collection w' = collection w \<or>
         (\<exists>d. collection w' = collection w @ [d] \<and> d ''embedding'' = Some (BFloats emb))"
  using assms
  by (auto simp: MongoDBService_create_note_def utcnow_def insert_one_eq next_fault_eq Let_def
      simp del: matches.simps split: if_splits)

lemma get_note_effect:
  assumes "MongoDBService_get_note w s = (r, w')"
  shows "embed_calls w' = embed_calls w"
    and "aggregate_calls w' = aggregate_calls w"
    and "collection w' = collection w"
  using assms
  by (auto simp: MongoDBService_get_note_def find_one_eq next_fault_eq Let_def
      simp del: matches.simps split: if_splits sum.splits option.splits)

lemma create_note_effect:
  assumes "create_note P w nt = (r, w')"
  shows "embed_calls w' =
           embed_calls w @ [document_request (embedding_text (title nt) (content nt) (tags nt))]"
    and "aggregate_calls w' = aggregate_calls w"
    and "collection w' = collection w \<or>
         (\<exists>d emb. collection w' = collection w @ [d] \<and> d ''embedding'' = Some (BFloats emb) \<and>
            P (document_request (embedding_text (title nt) (content nt) (tags nt))) = Inr emb \<and>
            int (length emb) = gemini_embedding_dimensions)"
proof -
  let ?text = "embedding_text (title nt) (content nt) (tags nt)"
  obtain r1 w1 where g: "generate_note_embedding P w (title nt) (content nt) (tags nt) = (r1, w1)"
    by fastforce
  have w1: "w1 = w\<lparr>embed_calls := embed_calls w @ [document_request ?text]\<rparr>"
    using g by (simp add: generate_note_embedding_text generate_embedding_eq)
  have goal: "embed_calls w' = embed_calls w @ [document_request ?text] \<and>
        aggregate_calls w' = aggregate_calls w \<and>
        (collection w' = collection w \<or>
         (\<exists>d emb. collection w' = collection w @ [d] \<and> d ''embedding'' = Some (BFloats emb) \<and>
            P (document_request ?text) = Inr emb \<and> int (length emb) = gemini_embedding_dimensions))"
  proof (cases r1)
    case (Inl e)
    then have "w' = w1"
      using assms g by (simp add: create_note_def)
    then show ?thesis by (simp add: w1)
  next
    case (Inr emb)
    have emb: "P (document_request ?text) = Inr emb \<and> int (length emb) = gemini_embedding_dimensions"
      using g Inr
      by (auto simp: generate_note_embedding_text generate_embedding_eq split: sum.splits if_splits)
    obtain r2 w2 where c: "MongoDBService_create_note w1 (title nt) (content nt) (user_id nt)
        (tags nt) emb = (r2, w2)"
      by fastforce
    note e2 = db_create_note_effect [OF c]
    show ?thesis
    proof (cases r2)
      case (Inl e)
      then have "w' = w2"
        using assms g c Inr by (simp add: create_note_def)
      then show ?thesis using e2 emb by (auto simp: w1)
    next
      case nid: (Inr nid)
      obtain r3 w3 where rd: "MongoDBService_get_note w2 nid = (r3, w3)"
        by fastforce
      note e3 = get_note_effect [OF rd]
      have "w' = w3"
        using assms g c Inr nid rd
        by (auto simp: create_note_def split: sum.splits option.splits)
      then show ?thesis using e2 e3 emb by (auto simp: w1)
    qed
  qed
  show "embed_calls w' = embed_calls w @ [document_request ?text]"
    and "aggregate_calls w' = aggregate_calls w"
    and "collection w' = collection w \<or>
         (\<exists>d emb. collection w' = collection w @ [d] \<and> d ''embedding'' = Some (BFloats emb) \<and>
            P (document_request ?text) = Inr emb \<and> int (length emb) = gemini_embedding_dimensions)"
    using goal by blast+
qed


lemma answers_Suc:
  "answers (Suc n) w \<Longrightarrow> \<not> fst (next_fault w) \<and> answers n (w\<lparr>faults := tl (faults w)\<rparr>)"
  by (cases "faults w") (auto simp: answers_def next_fault_eq)

lemma create_note_succeeds:
  assumes p: "P (document_request (embedding_text (title nt) (content nt) (tags nt))) = Inr emb"
    and len: "int (length emb) = gemini_embedding_dimensions"
    and ans: "answers 2 w"
    and fresh: "\<not> list_ex (matches (FieldIs ''_id'' (BId (new_ObjectId (oid_counter w)))))
                  (collection w)"
  shows "\<exists>resp w'. create_note P w nt = (Inr resp, w') \<and> faults w' = tl (tl (faults w)) \<and>
           nr_id resp = str_ObjectId (new_ObjectId (oid_counter w))"
proof -
  let ?text = "embedding_text (title nt) (content nt) (tags nt)"
  let ?w1 = "w\<lparr>embed_calls := embed_calls w @ [document_request ?text]\<rparr>"
  let ?i = "new_ObjectId (oid_counter w)"
  let ?d0 = "[''title'' \<mapsto> BStr (title nt), ''content'' \<mapsto> BStr (content nt),
              ''user_id'' \<mapsto> BStr (user_id nt), ''tags'' \<mapsto> BStrs (tags nt),
              ''embedding'' \<mapsto> BFloats emb, ''created_at'' \<mapsto> BDate (clock w),
              ''updated_at'' \<mapsto> BDate (clock w), ''_id'' \<mapsto> BId ?i]"
  let ?w2 = "?w1\<lparr>clock := clock w + 1, faults := tl (faults w), oid_counter := oid_counter w + 1,
               collection := collection w @ [?d0]\<rparr>"
  have "answers (Suc (Suc 0)) w"
    using ans by (simp add: numeral_2_eq_2)
  then have nf1: "\<not> fst (next_fault w)" and a1: "answers (Suc 0) (w\<lparr>faults := tl (faults w)\<rparr>)"
    using answers_Suc by blast+
  have nf2: "\<not> fst (next_fault ?w2)"
    using answers_Suc [OF a1] by (simp add: next_fault_eq)
  have g: "generate_note_embedding P w (title nt) (content nt) (tags nt) = (Inr emb, ?w1)"
    using p len by (simp add: generate_note_embedding_text generate_embedding_eq)
  have c: "MongoDBService_create_note ?w1 (title nt) (content nt) (user_id nt) (tags nt) emb
             = (Inr (str_ObjectId ?i), ?w2)"
    using nf1 fresh
    by (simp add: MongoDBService_create_note_def utcnow_def insert_one_eq next_fault_eq
        del: matches.simps)
  have "find (matches (FieldIs ''_id'' (BId ?i))) (collection ?w2) = Some ?d0"
    using fresh by (simp add: find_append_new del: matches.simps) (simp add: find_append_new)
  from get_note_found [OF ObjectId_str [OF length_new_ObjectId] nf2 this]
  have rd: "MongoDBService_get_note ?w2 (str_ObjectId ?i) =
              (Inr (Some (?d0(''_id'' \<mapsto> BStr (str_ObjectId ?i)))), ?w2\<lparr>faults := tl (faults ?w2)\<rparr>)" .
  show ?thesis
    by (simp add: create_note_def g c rd NoteResponse_of_def id_field_def str_field_def
        strs_field_def date_field_def)
qed


theorem get_note_never_raises_witness:
  "MongoDBService_get_note empty_world ''not-an-id'' = (Inr None, empty_world) \<and>
   fst (next_fault (empty_world\<lparr>faults := [True]\<rparr>)) \<and>
   fst (MongoDBService_get_note (empty_world\<lparr>faults := [True]\<rparr>) (str_ObjectId (new_ObjectId 1))) = Inr None \<and>
   fst (MongoDBService_get_note empty_world (str_ObjectId (new_ObjectId 1))) = Inr None \<and>
   fst (MongoDBService_get_note (empty_world\<lparr>faults := [True]\<rparr>) ''00 11 22 33 44 55 66 77 '')
     = Inr None"
proof -
  have bad: "ObjectId ''not-an-id'' =
      Inl (InvalidId (Prefixed ''not-an-id'' (Text ''is not a valid ObjectId'')))"
    by (simp add: ObjectId_def)
  have flt: "fst (next_fault (empty_world\<lparr>faults := [True]\<rparr>))"
    by (simp add: next_fault_def)
  have none: "\<not> list_ex (matches (FieldIs ''_id'' (BId (new_ObjectId 1)))) (collection empty_world)"
    by (simp add: empty_world_def)
  have a: "MongoDBService_get_note empty_world ''not-an-id'' = (Inr None, empty_world)"
    using get_note_never_raises [of empty_world "''not-an-id''", THEN conjunct2, THEN conjunct1,
        rule_format, OF bad] .
  have b: "fst (MongoDBService_get_note (empty_world\<lparr>faults := [True]\<rparr>) (str_ObjectId (new_ObjectId 1))) = Inr None"
    using get_note_never_raises [of "empty_world\<lparr>faults := [True]\<rparr>" "str_ObjectId (new_ObjectId 1)",
        THEN conjunct2, THEN conjunct2, THEN conjunct1, rule_format, OF flt] .
  have c: "fst (MongoDBService_get_note empty_world (str_ObjectId (new_ObjectId 1))) = Inr None"
    using get_note_never_raises [of empty_world "str_ObjectId (new_ObjectId 1)",
        THEN conjunct2, THEN conjunct2, THEN conjunct2, THEN conjunct1, rule_format,
        OF ObjectId_str [OF length_new_ObjectId] none] .
  have d: "fst (MongoDBService_get_note (empty_world\<lparr>faults := [True]\<rparr>)
      ''00 11 22 33 44 55 66 77 '') = Inr None"
    using get_note_never_raises [of "empty_world\<lparr>faults := [True]\<rparr>"
        "''00 11 22 33 44 55 66 77 ''",
        THEN conjunct2, THEN conjunct2, THEN conjunct1, rule_format, OF flt] .
  show ?thesis
    using a b c d flt by simp
qed

theorem ingest_then_get_round_trip_witness:
  "\<exists>resp w'. create_note (constant_provider 768) empty_world kyoto = (Inr resp, w') \<and>
     \<not> fst (next_fault w') \<and>
     (\<exists>d w''. MongoDBService_get_note w' (nr_id resp) = (Inr (Some d), w'') \<and>
        d ''title'' = Some (BStr ''Trip to Kyoto'') \<and>
        d ''content'' = Some (BStr ''Visited temples and gardens.'') \<and>
        d ''tags'' = Some (BStrs [''travel'']) \<and>
        d ''user_id'' = Some (BStr ''u1'') \<and>
        d ''created_at'' = Some (BDate 1000) \<and>
        d ''updated_at'' = Some (BDate 1000) \<and>
        d ''embedding'' = Some (BFloats (replicate 768 (1 / 2))) \<and>
        collection w'' = collection w')"
proof -
  have "\<exists>resp w'. create_note (constant_provider 768) empty_world kyoto = (Inr resp, w') \<and>
          faults w' = tl (tl (faults empty_world)) \<and>
          nr_id resp = str_ObjectId (new_ObjectId (oid_counter empty_world))"
    by (rule create_note_succeeds [where emb = "replicate 768 (1 / 2)"])
       (simp_all add: constant_provider_def gemini_embedding_dimensions_def answers_def
          empty_world_def)
  then obtain resp w' where
    ok: "create_note (constant_provider 768) empty_world kyoto = (Inr resp, w')" and
    fl: "faults w' = tl (tl (faults empty_world))"
    by blast
  have nf: "\<not> fst (next_fault w')"
    by (simp add: next_fault_eq fl empty_world_def)
  have emb: "fst (generate_note_embedding (constant_provider 768) empty_world (title kyoto)
                (content kyoto) (tags kyoto)) = Inr (replicate 768 (1 / 2))"
    by (simp add: generate_note_embedding_text generate_embedding_eq constant_provider_def
        gemini_embedding_dimensions_def)
  show ?thesis
    using ingest_then_get_round_trip [OF ok nf] ok nf emb
    by (auto simp: kyoto_def empty_world_def)
qed

subsection \<open>Effects of retrieval\<close>

lemma aggregate_to_list_eq:
  "aggregate_to_list sim w pl len =
     (if len < 0 then (Inl (ValueError (Text ''length must be non-negative'')), w)
      else if fst (next_fault w)
      then (Inl (PyMongoError (Text ''aggregate failed'')),
            w\<lparr>aggregate_calls := aggregate_calls w @ [pl], faults := tl (faults w)\<rparr>)
      else (case run_pipeline sim pl (map (\<lambda>d. (d, None)) (collection w)) of
              Inl e \<Rightarrow> (Inl e, w\<lparr>aggregate_calls := aggregate_calls w @ [pl], faults := tl (faults w)\<rparr>)
            | Inr items \<Rightarrow>
                (Inr (take (nat len) (map fst items)),
                 w\<lparr>aggregate_calls := aggregate_calls w @ [pl], faults := tl (faults w)\<rparr>)))"
  by (simp add: aggregate_to_list_def next_fault_eq bool.case_eq_if split: sum.splits)

lemma vector_search_effect:
  assumes "MongoDBService_vector_search sim w qe uid lmt = (r, w')"
  shows "embed_calls w' = embed_calls w"
    and "collection w' = collection w"
    and "aggregate_calls w' = aggregate_calls w \<or>
         aggregate_calls w' = aggregate_calls w @ [vector_search_pipeline qe uid lmt]"
  using assms
  by (auto simp: MongoDBService_vector_search_def aggregate_to_list_eq Let_def
      split: if_splits sum.splits)

lemma search_notes_effect:
  assumes "search_notes P sim w q = (r, w')"
  shows "embed_calls w' = embed_calls w @ [query_request (query q)]"
    and "collection w' = collection w"
    and "aggregate_calls w' = aggregate_calls w \<or>
         (\<exists>emb. aggregate_calls w' =
            aggregate_calls w @ [vector_search_pipeline emb (search_user_id q) (limit q)])"
proof -
  let ?w0 = "w\<lparr>clock := clock w + 1\<rparr>"
  let ?w1 = "?w0\<lparr>embed_calls := embed_calls w @ [query_request (query q)]\<rparr>"
  obtain r1 where g: "generate_query_embedding P ?w0 (query q) = (r1, ?w1)"
    by (simp add: generate_query_embedding_eq)
  have goal: "embed_calls w' = embed_calls w @ [query_request (query q)] \<and>
      collection w' = collection w \<and>
      (aggregate_calls w' = aggregate_calls w \<or>
         (\<exists>emb. aggregate_calls w' =
            aggregate_calls w @ [vector_search_pipeline emb (search_user_id q) (limit q)]))"
  proof (cases r1)
    case (Inl e)
    then have "w' = ?w1"
      using assms g by (simp add: search_notes_def time_time_def)
    then show ?thesis by simp
  next
    case (Inr emb)
    obtain r2 w2 where v: "MongoDBService_vector_search sim ?w1 emb (search_user_id q) (limit q)
        = (r2, w2)"
      by fastforce
    note e2 = vector_search_effect [OF v]
    have "w' = w2 \<or> w' = w2\<lparr>clock := clock w2 + 1\<rparr>"
      using assms g Inr v
      by (auto simp: search_notes_def time_time_def split: sum.splits)
    then show ?thesis using e2 by auto
  qed
  show "embed_calls w' = embed_calls w @ [query_request (query q)]"
    and "collection w' = collection w"
    and "aggregate_calls w' = aggregate_calls w \<or>
         (\<exists>emb. aggregate_calls w' =
            aggregate_calls w @ [vector_search_pipeline emb (search_user_id q) (limit q)])"
    using goal by blast+
qed

subsection \<open>The text that is embedded\<close>

text \<open>
  Claim C3. For every title, content and tag list, \<open>generate_note_embedding\<close> submits to
  the provider the text \<open>embedding_text\<close>: title, blank line, content and, only when the
  tag list is not empty, a blank line and \<^verbatim>\<open>Tags: \<close> with the tags joined by comma and
  space in their order. It is the one text the handler \<open>create_note\<close> sends.
\<close>

theorem embedding_source_text:
  "generate_note_embedding P w ttl cnt tgs = generate_embedding P w (embedding_text ttl cnt tgs) \<and>
   embed_calls (snd (generate_note_embedding P w ttl cnt tgs)) =
     embed_calls w @ [document_request (embedding_text ttl cnt tgs)] \<and>
   map er_content (drop (length (embed_calls w)) (embed_calls (snd (create_note P w nt)))) =
     [embedding_text (title nt) (content nt) (tags nt)]"
proof -
  have "embed_calls (snd (create_note P w nt)) =
          embed_calls w @ [document_request (embedding_text (title nt) (content nt) (tags nt))]"
    using create_note_effect(1) [of P w nt] by (cases "create_note P w nt") simp
  then show ?thesis
    by (simp add: generate_note_embedding_text generate_embedding_eq document_request_def)
qed

theorem embedding_source_text_witness:
  "map er_content (embed_calls (snd (create_note (constant_provider 768) empty_world kyoto))) =
     [''Trip to Kyoto'' @ [LF, LF] @ ''Visited temples and gardens.'' @ [LF, LF] @ ''Tags: travel'']
   \<and>
   map er_content (embed_calls (snd (generate_note_embedding (constant_provider 768) empty_world
       ''a'' ''b'' [''x'', ''y'', ''z'']))) = [''a'' @ [LF, LF] @ ''b'' @ [LF, LF] @ ''Tags: x, y, z'']
   \<and>
   map er_content (embed_calls (snd (generate_note_embedding (constant_provider 768) empty_world
       ''a'' ''b'' []))) = [''a'' @ [LF, LF] @ ''b'']"
  using embedding_source_text [of "constant_provider 768" empty_world "''a''" "''b''"
      "[''x'', ''y'', ''z'']" kyoto, THEN conjunct2]
    embedding_source_text [of "constant_provider 768" empty_world "''a''" "''b''" "[]" kyoto,
      THEN conjunct2, THEN conjunct1]
  by (simp add: embedding_text_def document_request_def kyoto_def empty_world_def)

subsection \<open>No note without its embedding\<close>

lemma create_note_embedding_mismatch:
  assumes "P (document_request (embedding_text (title nt) (content nt) (tags nt))) = Inr v"
    and "int (length v) \<noteq> gemini_embedding_dimensions"
  shows "create_note P w nt =
           (Inl (HTTPException 500 (Prefixed ''Failed to create note''
                   (Prefixed ''Failed to generate embedding''
                      (ExpectedGot gemini_embedding_dimensions (length v))))),
            w\<lparr>embed_calls := embed_calls w @
                 [document_request (embedding_text (title nt) (content nt) (tags nt))]\<rparr>)"
  using assms
  by (simp add: create_note_def generate_note_embedding_text generate_embedding_eq
      create_note_except_def)

lemma create_note_provider_error:
  assumes "P (document_request (embedding_text (title nt) (content nt) (tags nt))) = Inl e"
  shows "create_note P w nt =
           (Inl (HTTPException 500 (Prefixed ''Failed to create note''
                   (Prefixed ''Failed to generate embedding'' (str_exn e)))),
            w\<lparr>embed_calls := embed_calls w @
                 [document_request (embedding_text (title nt) (content nt) (tags nt))]\<rparr>)"
  using assms
  by (simp add: create_note_def generate_note_embedding_text generate_embedding_eq
      create_note_except_def)

lemma POST_api_notes_collection:
  "\<exists>new. collection (snd (POST_api_notes P w b)) = collection w @ new \<and>
     (\<forall>d\<in>set new. \<exists>v. d ''embedding'' = Some (BFloats v) \<and>
        int (length v) = gemini_embedding_dimensions)"
proof (cases "NoteCreate_validate b")
  case (Inl e)
  then have "collection (snd (POST_api_notes P w b)) = collection w @ []"
    by (simp add: POST_api_notes_def)
  then show ?thesis by fastforce
next
  case (Inr nt)
  obtain r w' where c: "create_note P w nt = (r, w')" by fastforce
  have "collection w' = collection w @ [] \<or>
        (\<exists>d emb. collection w' = collection w @ [d] \<and> d ''embedding'' = Some (BFloats emb) \<and>
           int (length emb) = gemini_embedding_dimensions)"
    using create_note_effect(3) [OF c] by auto
  moreover have "snd (POST_api_notes P w b) = w'"
    using Inr c by (simp add: POST_api_notes_def)
  ultimately show ?thesis by fastforce
qed

text \<open>
  Claim C2. Whatever a create-note request adds to the collection carries an embedding of
  the configured length, 768. When the provider returns a vector of another length, or
  fails, \<open>create_note\<close> answers status 500 with the mismatch (expected and actual
  length) or the provider's error as its cause, and the world differs from the one before
  only by the logged provider request: no round trip to the store was made, nothing was
  written.
\<close>

theorem persisted_notes_carry_embedding:
  "(\<exists>new. collection (snd (POST_api_notes P w b)) = collection w @ new \<and>
      (\<forall>d\<in>set new. \<exists>v. d ''embedding'' = Some (BFloats v) \<and>
         int (length v) = gemini_embedding_dimensions)) \<and>
   gemini_embedding_dimensions = 768 \<and>
   (\<forall>v. P (document_request (embedding_text (title nt) (content nt) (tags nt))) = Inr v \<longrightarrow>
        int (length v) \<noteq> gemini_embedding_dimensions \<longrightarrow>
        create_note P w nt =
          (Inl (HTTPException 500 (Prefixed ''Failed to create note''
                  (Prefixed ''Failed to generate embedding''
                     (ExpectedGot gemini_embedding_dimensions (length v))))),
           w\<lparr>embed_calls := embed_calls w @
                [document_request (embedding_text (title nt) (content nt) (tags nt))]\<rparr>)) \<and>
   (\<forall>e. P (document_request (embedding_text (title nt) (content nt) (tags nt))) = Inl e \<longrightarrow>
        create_note P w nt =
          (Inl (HTTPException 500 (Prefixed ''Failed to create note''
                  (Prefixed ''Failed to generate embedding'' (str_exn e)))),
           w\<lparr>embed_calls := embed_calls w @
                [document_request (embedding_text (title nt) (content nt) (tags nt))]\<rparr>))"
  using POST_api_notes_collection [of P w b] create_note_embedding_mismatch [of P nt _ w]
    create_note_provider_error [of P nt _ w]
  by (simp add: gemini_embedding_dimensions_def)

theorem persisted_notes_carry_embedding_witness:
  "constant_provider 5 (document_request (embedding_text (title kyoto) (content kyoto) (tags kyoto)))
     = Inr (replicate 5 (1 / 2)) \<and>
   int (length (replicate 5 (1 / 2 :: real))) \<noteq> gemini_embedding_dimensions \<and>
   fst (create_note (constant_provider 5) empty_world kyoto) =
     Inl (HTTPException 500 (Prefixed ''Failed to create note''
            (Prefixed ''Failed to generate embedding'' (ExpectedGot 768 5)))) \<and>
   collection (snd (create_note (constant_provider 5) empty_world kyoto)) = [] \<and>
   faults (snd (create_note (constant_provider 5) empty_world kyoto)) = faults empty_world"
proof -
  have p: "constant_provider 5
      (document_request (embedding_text (title kyoto) (content kyoto) (tags kyoto)))
      = Inr (replicate 5 (1 / 2))"
    by (simp add: constant_provider_def)
  have n: "int (length (replicate 5 (1 / 2 :: real))) \<noteq> gemini_embedding_dimensions"
    by (simp add: gemini_embedding_dimensions_def)
  show ?thesis
    using persisted_notes_carry_embedding [of "constant_provider 5" empty_world undefined kyoto,
        THEN conjunct2, THEN conjunct2, THEN conjunct1, rule_format, OF p n] p n
    by (simp add: gemini_embedding_dimensions_def empty_world_def)
qed

subsection \<open>Document mode and query mode\<close>

lemma POST_api_notes_embed_calls:
  "embed_calls (snd (POST_api_notes P w b)) = embed_calls w \<or>
   (\<exists>t. embed_calls (snd (POST_api_notes P w b)) = embed_calls w @ [document_request t])"
proof (cases "NoteCreate_validate b")
  case (Inl e)
  then show ?thesis by (simp add: POST_api_notes_def)
next
  case (Inr nt)
  obtain r w' where c: "create_note P w nt = (r, w')" by fastforce
  then show ?thesis
    using Inr create_note_effect(1) [OF c] by (auto simp: POST_api_notes_def)
qed

lemma POST_api_search_effect:
  "(embed_calls (snd (POST_api_search P sim w b)) = embed_calls w \<or>
    (\<exists>t. embed_calls (snd (POST_api_search P sim w b)) = embed_calls w @ [query_request t])) \<and>
   (aggregate_calls (snd (POST_api_search P sim w b)) = aggregate_calls w \<or>
    (\<exists>emb q. SearchQuery_validate b = Inr q \<and>
       aggregate_calls (snd (POST_api_search P sim w b)) =
         aggregate_calls w @ [vector_search_pipeline emb (search_user_id q) (limit q)]))"
proof (cases "SearchQuery_validate b")
  case (Inl e)
  then show ?thesis by (simp add: POST_api_search_def)
next
  case (Inr q)
  obtain r w' where c: "search_notes P sim w q = (r, w')" by fastforce
  then show ?thesis
    using Inr search_notes_effect(1,3) [OF c] by (auto simp: POST_api_search_def)
qed

text \<open>
  Claim C8. The handler \<open>create_note\<close> sends the provider exactly one request, tagged
  \<^verbatim>\<open>retrieval_document\<close>; the handler \<open>search_notes\<close> sends exactly one, tagged
  \<^verbatim>\<open>retrieval_query\<close>; the two tags differ. A request rejected by validation sends
  none, so every request made on behalf of the notes endpoint is in document mode and
  every request made on behalf of the search endpoint is in query mode.
\<close>

theorem embedding_modes:
  "map er_task_type (drop (length (embed_calls w)) (embed_calls (snd (create_note P w nt))))
     = [''retrieval_document''] \<and>
   take (length (embed_calls w)) (embed_calls (snd (create_note P w nt))) = embed_calls w \<and>
   map er_task_type (drop (length (embed_calls w)) (embed_calls (snd (search_notes P sim w q))))
     = [''retrieval_query''] \<and>
   take (length (embed_calls w)) (embed_calls (snd (search_notes P sim w q))) = embed_calls w \<and>
   set (map er_task_type
          (drop (length (embed_calls w)) (embed_calls (snd (POST_api_notes P w b)))))
     \<subseteq> {''retrieval_document''} \<and>
   set (map er_task_type
          (drop (length (embed_calls w)) (embed_calls (snd (POST_api_search P sim w sb)))))
     \<subseteq> {''retrieval_query''} \<and>
   ''retrieval_document'' \<noteq> ''retrieval_query''"
proof -
  have c: "embed_calls (snd (create_note P w nt)) =
             embed_calls w @ [document_request (embedding_text (title nt) (content nt) (tags nt))]"
    using create_note_effect(1) [of P w nt] by (cases "create_note P w nt") simp
  have s: "embed_calls (snd (search_notes P sim w q)) = embed_calls w @ [query_request (query q)]"
    using search_notes_effect(1) [of P sim w q] by (cases "search_notes P sim w q") simp
  show ?thesis
    using POST_api_notes_embed_calls [of P w b] POST_api_search_effect [of P sim w sb]
    by (auto simp: c s document_request_def query_request_def)
qed

theorem embedding_modes_witness:
  "map er_task_type (embed_calls (snd (create_note (constant_provider 768) empty_world kyoto)))
     = [''retrieval_document''] \<and>
   map er_task_type (embed_calls (snd (search_notes (constant_provider 768) first_component
       empty_world \<lparr>query = ''temples in Japan'', search_user_id = ''u1'', limit = 5\<rparr>)))
     = [''retrieval_query'']"
  using embedding_modes [of empty_world "constant_provider 768" kyoto first_component
      "\<lparr>query = ''temples in Japan'', search_user_id = ''u1'', limit = 5\<rparr>" undefined undefined]
  by (simp add: empty_world_def)

subsection \<open>The result cap of a search\<close>

lemma SearchQuery_validate_limit:
  assumes "SearchQuery_validate b = Inr q"
  shows "1 \<le> limit q \<and> limit q \<le> 50 \<and>
         limit q = (case body_limit b of None \<Rightarrow> 10 | Some n \<Rightarrow> n)"
  using assms
  by (auto simp: SearchQuery_validate_def SearchQuery_limit_def Let_def
      split: sum.splits option.splits if_splits)

lemma SearchQuery_validate_out_of_range:
  assumes "body_limit b = Some n" and "n < 1 \<or> 50 < n"
  shows "\<exists>errs. errs \<noteq> [] \<and> SearchQuery_validate b = Inl (RequestValidationError errs)"
proof -
  obtain e where "SearchQuery_limit (body_limit b) = Inl e"
    using assms by (auto simp: SearchQuery_limit_def)
  then show ?thesis
    by (simp add: SearchQuery_validate_def errors_of_def Let_def split: sum.splits)
qed

lemma pipeline_limits_vector_search:
  "pipeline_limits (vector_search_pipeline emb uid lmt) = [lmt]"
  by (simp add: pipeline_limits_def vector_search_pipeline_def)

text \<open>
  Claim C5. The search endpoint keeps the result cap within 1 to 50 by one policy,
  rejection: a request whose limit is below 1 (zero or negative) or above 50 is answered
  with a validation error and nothing else happens; a request that passes validation
  carries its own limit, unchanged and within 1 to 50 (10 when none was sent); and every
  pipeline the endpoint sends to the store asks for a cap within 1 to 50.
\<close>

theorem search_limit_policy:
  "(\<forall>n. body_limit b = Some n \<longrightarrow> n < 1 \<or> 50 < n \<longrightarrow>
        (\<exists>errs. errs \<noteq> [] \<and>
           POST_api_search P sim w b = (Inl (RequestValidationError errs), w))) \<and>
   (\<forall>q. SearchQuery_validate b = Inr q \<longrightarrow>
        1 \<le> limit q \<and> limit q \<le> 50 \<and>
        limit q = (case body_limit b of None \<Rightarrow> 10 | Some n \<Rightarrow> n)) \<and>
   (\<forall>pl\<in>set (drop (length (aggregate_calls w))
                (aggregate_calls (snd (POST_api_search P sim w b)))).
      \<forall>n\<in>set (pipeline_limits pl). 1 \<le> n \<and> n \<le> 50)"
proof (intro conjI allI impI)
  fix n assume "body_limit b = Some n" "n < 1 \<or> 50 < n"
  then obtain errs where "errs \<noteq> []" "SearchQuery_validate b = Inl (RequestValidationError errs)"
    using SearchQuery_validate_out_of_range by blast
  then show "\<exists>errs. errs \<noteq> [] \<and>
      POST_api_search P sim w b = (Inl (RequestValidationError errs), w)"
    by (simp add: POST_api_search_def)
next
  fix q assume "SearchQuery_validate b = Inr q"
  then show "1 \<le> limit q" "limit q \<le> 50"
    "limit q = (case body_limit b of None \<Rightarrow> 10 | Some n \<Rightarrow> n)"
    using SearchQuery_validate_limit by blast+
next
  show "\<forall>pl\<in>set (drop (length (aggregate_calls w))
                (aggregate_calls (snd (POST_api_search P sim w b)))).
      \<forall>n\<in>set (pipeline_limits pl). 1 \<le> n \<and> n \<le> 50"
    using POST_api_search_effect [of P sim w b, THEN conjunct2] SearchQuery_validate_limit [of b]
    by (auto simp: pipeline_limits_vector_search)
qed

theorem search_limit_policy_witness:
  "(\<exists>errs. errs \<noteq> [] \<and>
      POST_api_search (constant_provider 768) first_component empty_world
        \<lparr>body_query = ''temples in Japan'', body_search_user_id = ''u1'', body_limit = Some 0\<rparr>
      = (Inl (RequestValidationError errs), empty_world)) \<and>
   (\<exists>errs. errs \<noteq> [] \<and>
      POST_api_search (constant_provider 768) first_component empty_world
        \<lparr>body_query = ''temples in Japan'', body_search_user_id = ''u1'', body_limit = Some (- 3)\<rparr>
      = (Inl (RequestValidationError errs), empty_world)) \<and>
   (\<exists>errs. errs \<noteq> [] \<and>
      POST_api_search (constant_provider 768) first_component empty_world
        \<lparr>body_query = ''temples in Japan'', body_search_user_id = ''u1'', body_limit = Some 51\<rparr>
      = (Inl (RequestValidationError errs), empty_world))"
proof -
  have "\<exists>errs. errs \<noteq> [] \<and>
      POST_api_search (constant_provider 768) first_component empty_world
        \<lparr>body_query = ''temples in Japan'', body_search_user_id = ''u1'', body_limit = Some n\<rparr>
      = (Inl (RequestValidationError errs), empty_world)" if "n < 1 \<or> 50 < n" for n
    using search_limit_policy [of "\<lparr>body_query = ''temples in Japan'',
        body_search_user_id = ''u1'', body_limit = Some n\<rparr>" "constant_provider 768"
        first_component empty_world, THEN conjunct1, rule_format, of n] that
    by simp
  from this [of 0] this [of "- 3"] this [of 51] show ?thesis
    by simp
qed

subsection \<open>Listing the notes of a user\<close>

lemma map_sum_Inr: "map_sum f xs = Inr ys \<Longrightarrow> list_all2 (\<lambda>x y. f x = Inr y) xs ys"
  by (induction xs arbitrary: ys) (auto split: sum.splits)

lemma map_sum_all_Inr:
  "(\<forall>x\<in>set xs. \<exists>y. f x = Inr y) \<Longrightarrow> \<exists>ys. map_sum f xs = Inr ys"
  by (induction xs) auto

lemma set_id_str_other: "set_id_str d = Inr d' \<Longrightarrow> k \<noteq> ''_id'' \<Longrightarrow> d' k = d k"
  by (auto simp: set_id_str_def split: option.splits)

lemma set_id_str_fields:
  assumes "list_all2 (\<lambda>x y. set_id_str x = Inr y) xs ys" and "k \<noteq> ''_id''"
  shows "map (\<lambda>d. d k) ys = map (\<lambda>d. d k) xs"
  using assms by (induction rule: list_all2_induct) (auto simp: set_id_str_other)

lemma set_id_str_preserves:
  assumes "list_all2 (\<lambda>x y. set_id_str x = Inr y) xs ys" and "k \<noteq> ''_id''"
    and "\<forall>x\<in>set xs. x k = v"
  shows "\<forall>y\<in>set ys. y k = v"
  using assms by (induction rule: list_all2_induct) (auto simp: set_id_str_other)

lemma descending_rev_sort_key: "descending (map f (rev (sort_key f xs)))"
proof -
  have "sorted_wrt (\<lambda>x y. f x \<le> f y) (sort_key f xs)"
    using sorted_sort_key [of f xs] by (simp add: sorted_wrt_map)
  then show ?thesis
    by (simp add: descending_def sorted_wrt_map sorted_wrt_rev)
qed

lemma date_key_fields:
  "map (\<lambda>d. d k) ys = map (\<lambda>d. d k) xs \<Longrightarrow> map (date_key k) ys = map (date_key k) xs"
proof -
  assume "map (\<lambda>d. d k) ys = map (\<lambda>d. d k) xs"
  then have "map ((\<lambda>v. case v of Some (BDate t) \<Rightarrow> Some t | _ \<Rightarrow> None) \<circ> (\<lambda>d. d k)) ys =
             map ((\<lambda>v. case v of Some (BDate t) \<Rightarrow> Some t | _ \<Rightarrow> None) \<circ> (\<lambda>d. d k)) xs"
    by (metis map_map)
  moreover have "date_key k = (\<lambda>v. case v of Some (BDate t) \<Rightarrow> Some t | _ \<Rightarrow> None) \<circ> (\<lambda>d. d k)"
    by (rule ext) (simp add: date_key_def)
  ultimately show ?thesis by simp
qed

lemma cursor_to_list_eq:
  "cursor_to_list w cur len =
     (if len < 0 then (Inl (ValueError (Text ''length must be non-negative'')), w)
      else if fst (next_fault w)
      then (Inl (PyMongoError (Text ''find failed'')), w\<lparr>faults := tl (faults w)\<rparr>)
      else (Inr (take (nat len) (run_cursor cur (collection w))), w\<lparr>faults := tl (faults w)\<rparr>))"
  by (simp add: cursor_to_list_def next_fault_eq bool.case_eq_if)

lemma list_notes_eq:
  "MongoDBService_list_notes w uid lmt =
     (if lmt < 0 then (Inl (ValueError (Text ''length must be non-negative'')), w)
      else if fst (next_fault w)
      then (Inl (PyMongoError (Text ''find failed'')), w\<lparr>faults := tl (faults w)\<rparr>)
      else (map_sum set_id_str (take (nat lmt) (run_cursor (list_cursor uid lmt) (collection w))),
            w\<lparr>faults := tl (faults w)\<rparr>))"
  by (simp add: MongoDBService_list_notes_def cursor_to_list_eq list_cursor_def
      collection_find_def cursor_sort_def cursor_limit_def)

lemma matches_fun:
  "matches (FieldIs k v) = (\<lambda>d. d k = Some v)" "matches (FieldEq k v) = (\<lambda>d. d k = Some v)"
  by (rule ext, simp)+

lemma run_list_cursor:
  "run_cursor (list_cursor uid lmt) ds =
     map (exclude_fields [''embedding''])
       (limit_docs lmt (rev (sort_key (date_key ''updated_at'') (notes_of uid ds))))"
  by (simp add: run_cursor_def list_cursor_def sort_docs_def notes_of_def matches_fun)

lemma run_list_cursor_props:
  assumes "xs = take (nat lmt) (run_cursor (list_cursor uid lmt) ds)" and "0 \<le> lmt"
  shows "\<forall>x\<in>set xs. x ''user_id'' = Some (BStr uid) \<and> x ''embedding'' = None"
    and "descending (map (date_key ''updated_at'') xs)"
    and "length xs = min (nat lmt) (length (notes_of uid ds))"
proof -
  let ?s = "rev (sort_key (date_key ''updated_at'') (notes_of uid ds))"
  have set_s: "set ?s \<subseteq> set (notes_of uid ds)" by simp
  have "\<forall>x\<in>set (map (exclude_fields [''embedding'']) ?s).
          x ''user_id'' = Some (BStr uid) \<and> x ''embedding'' = None"
    by (auto simp: exclude_fields_def notes_of_def)
  moreover have "set xs \<subseteq> set (map (exclude_fields [''embedding'']) ?s)"
    unfolding assms(1) run_list_cursor limit_docs_def
    by (auto dest!: in_set_takeD)
  ultimately show "\<forall>x\<in>set xs. x ''user_id'' = Some (BStr uid) \<and> x ''embedding'' = None"
    by blast
  have dk: "date_key ''updated_at'' \<circ> exclude_fields [''embedding''] = date_key ''updated_at''"
    by (rule ext) (simp add: date_key_def exclude_fields_def)
  have "descending (map (date_key ''updated_at'') ?s)"
    by (rule descending_rev_sort_key)
  then have "descending (map (date_key ''updated_at'') (limit_docs lmt ?s))"
    by (simp add: limit_docs_def descending_def sorted_wrt_map)
  then have "descending (map (date_key ''updated_at'')
      (map (exclude_fields [''embedding'']) (limit_docs lmt ?s)))"
    by (simp add: dk)
  then show "descending (map (date_key ''updated_at'') xs)"
    unfolding assms(1) run_list_cursor
    by (simp add: descending_def sorted_wrt_map)
  show "length xs = min (nat lmt) (length (notes_of uid ds))"
    using assms(2) unfolding assms(1) run_list_cursor limit_docs_def
    by auto
qed

text \<open>
  Claim C7. Whenever \<open>list_notes\<close> returns, every returned record belongs to the given
  user and has no embedding field, the records are in non-increasing order of
  \<^verbatim>\<open>updated_at\<close>, and there are at most \<open>limit\<close> of them (exactly the smaller of
  \<open>limit\<close> and the number of notes of that user); the collection is unchanged. It does
  return for every non-negative limit when the store answers and every stored document
  has an id. (A negative limit is refused by \<^verbatim>\<open>to_list\<close>: nothing is returned.)
\<close>

theorem list_notes_scoped_sorted_capped:
  "(\<forall>rs w'. MongoDBService_list_notes w uid lmt = (Inr rs, w') \<longrightarrow>
      (\<forall>r\<in>set rs. r ''user_id'' = Some (BStr uid) \<and> r ''embedding'' = None) \<and>
      descending (map (date_key ''updated_at'') rs) \<and>
      int (length rs) \<le> lmt \<and>
      length rs = min (nat lmt) (length (notes_of uid (collection w))) \<and>
      collection w' = collection w) \<and>
   (0 \<le> lmt \<longrightarrow> answers 1 w \<longrightarrow> (\<forall>d\<in>set (collection w). d ''_id'' \<noteq> None) \<longrightarrow>
      (\<exists>rs w'. MongoDBService_list_notes w uid lmt = (Inr rs, w')))"
proof (intro conjI allI impI)
  fix rs w'
  assume a: "MongoDBService_list_notes w uid lmt = (Inr rs, w')"
  let ?xs = "take (nat lmt) (run_cursor (list_cursor uid lmt) (collection w))"
  have pos: "0 \<le> lmt" and ms: "map_sum set_id_str ?xs = Inr rs"
    and w': "w' = w\<lparr>faults := tl (faults w)\<rparr>"
    using a by (auto simp: list_notes_eq split: if_splits)
  note props = run_list_cursor_props [OF refl pos, of uid "collection w"]
  have l2: "list_all2 (\<lambda>x y. set_id_str x = Inr y) ?xs rs"
    by (rule map_sum_Inr [OF ms])
  have len: "length rs = length ?xs"
    using l2 by (metis list_all2_lengthD)
  have t: "map (\<lambda>d. d ''updated_at'') rs = map (\<lambda>d. d ''updated_at'') ?xs"
    using set_id_str_fields [OF l2] by simp
  have "\<forall>r\<in>set rs. r ''user_id'' = Some (BStr uid)"
    by (rule set_id_str_preserves [OF l2]) (use props(1) in simp_all)
  moreover have "\<forall>r\<in>set rs. r ''embedding'' = None"
    by (rule set_id_str_preserves [OF l2]) (use props(1) in simp_all)
  ultimately show "\<forall>r\<in>set rs. r ''user_id'' = Some (BStr uid) \<and> r ''embedding'' = None"
    by blast
  show "descending (map (date_key ''updated_at'') rs)"
    using props(2) date_key_fields [OF t] by simp
  show "length rs = min (nat lmt) (length (notes_of uid (collection w)))"
    using props(3) len by simp
  then show "int (length rs) \<le> lmt"
    using pos by linarith
  show "collection w' = collection w"
    by (simp add: w')
next
  assume pos: "0 \<le> lmt" and ans: "answers 1 w"
    and ids: "\<forall>d\<in>set (collection w). d ''_id'' \<noteq> None"
  let ?xs = "take (nat lmt) (run_cursor (list_cursor uid lmt) (collection w))"
  have nf: "\<not> fst (next_fault w)"
    using ans answers_Suc [of 0 w] by simp
  have "\<forall>x\<in>set ?xs. x ''_id'' \<noteq> None"
  proof
    fix x assume "x \<in> set ?xs"
    then have "x \<in> set (run_cursor (list_cursor uid lmt) (collection w))"
      by (rule in_set_takeD)
    then obtain d where "d \<in> set (limit_docs lmt (rev (sort_key (date_key ''updated_at'')
        (notes_of uid (collection w)))))" and x: "x = exclude_fields [''embedding''] d"
      unfolding run_list_cursor by auto
    then have "d \<in> set (notes_of uid (collection w))"
      by (auto simp: limit_docs_def dest: in_set_takeD split: if_splits)
    then have "d \<in> set (collection w)"
      by (simp add: notes_of_def)
    then show "x ''_id'' \<noteq> None"
      using ids by (simp add: x exclude_fields_def)
  qed
  then have "\<forall>x\<in>set ?xs. \<exists>y. set_id_str x = Inr y"
    by (auto simp: set_id_str_def split: option.splits)
  then obtain rs where "map_sum set_id_str ?xs = Inr rs"
    using map_sum_all_Inr by blast
  then show "\<exists>rs w'. MongoDBService_list_notes w uid lmt = (Inr rs, w')"
    using pos nf by (simp add: list_notes_eq)
qed


theorem list_notes_scoped_sorted_capped_witness:
  "\<exists>rs w'. MongoDBService_list_notes two_users_world ''u1'' 5 = (Inr rs, w') \<and>
     map (\<lambda>r. r ''title'') rs = [Some (BStr ''C''), Some (BStr ''A'')] \<and>
     map (\<lambda>r. r ''user_id'') rs = [Some (BStr ''u1''), Some (BStr ''u1'')] \<and>
     map (\<lambda>r. r ''embedding'') rs = [None, None] \<and>
     map (date_key ''updated_at'') rs = [Some 30, Some 10] \<and>
     descending (map (date_key ''updated_at'') rs) \<and>
     int (length rs) \<le> 5 \<and>
     collection w' = collection two_users_world"
proof -
  have pos: "(0::int) \<le> 5" by simp
  have ans: "answers 1 two_users_world"
    by (simp add: answers_def two_users_world_def)
  have ids: "\<forall>d\<in>set (collection two_users_world). d ''_id'' \<noteq> None"
    by (simp add: two_users_world_def stored_note_def)
  obtain rs w' where r: "MongoDBService_list_notes two_users_world ''u1'' 5 = (Inr rs, w')"
    using list_notes_scoped_sorted_capped [of two_users_world "''u1''" 5, THEN conjunct2]
      pos ans ids
    by blast
  have vals: "map (\<lambda>r. r ''title'') rs = [Some (BStr ''C''), Some (BStr ''A'')] \<and>
     map (\<lambda>r. r ''user_id'') rs = [Some (BStr ''u1''), Some (BStr ''u1'')] \<and>
     map (\<lambda>r. r ''embedding'') rs = [None, None] \<and>
     map (date_key ''updated_at'') rs = [Some 30, Some 10]"
    using r
    by (auto simp: list_notes_eq run_list_cursor two_users_world_def notes_of_def stored_note_def
        next_fault_eq date_key_def limit_docs_def exclude_fields_def set_id_str_def)
  show ?thesis
    using list_notes_scoped_sorted_capped [of two_users_world "''u1''" 5, THEN conjunct1,
        THEN spec, THEN spec, THEN mp, OF r] r vals
    by simp
qed

subsection \<open>Vector search scoped to a user\<close>

lemma map_filter_scored:
  assumes "vs_path a = p" and "vs_queryVector a = q"
  shows "List.map_filter (scored sim a) ds =
     map (\<lambda>d. (d, case d p of Some (BFloats v) \<Rightarrow> Some (sim q v) | _ \<Rightarrow> None))
       (filter (\<lambda>d. case d p of Some (BFloats v) \<Rightarrow> True | _ \<Rightarrow> False) ds)"
  using assms
  by (induction ds) (auto simp: List.map_filter_simps scored_def split: option.splits bson.splits)

lemma run_search_pipeline:
  "run_pipeline sim (vector_search_pipeline qe uid lmt) (map (\<lambda>d. (d, None)) ds) =
     (if lmt < 1 \<or> vector_search_num_candidates < lmt
      then Inl (PyMongoError (Text ''$vectorSearch: invalid limit''))
      else Inr (map (run_project search_projection)
             (take (nat lmt) (take (nat vector_search_num_candidates) (ranked sim qe uid ds)))))"
proof -
  have "map fst (map (\<lambda>d. (d, None :: real option)) ds) = ds"
    by (simp add: comp_def)
  then show ?thesis
    by (simp add: vector_search_pipeline_def run_vectorSearch_def
        map_filter_scored [where p = "''embedding''" and q = qe] ranked_def
        notes_of_def has_vector_def matches_fun search_projection_def)
qed

lemma vector_search_eq:
  "MongoDBService_vector_search sim w qe uid lmt =
     (if lmt < 0
      then (Inl (Exception (Prefixed ''Vector search failed'' (Text ''length must be non-negative''))), w)
      else if fst (next_fault w)
      then (Inl (Exception (Prefixed ''Vector search failed'' (Text ''aggregate failed''))),
            w\<lparr>aggregate_calls := aggregate_calls w @ [vector_search_pipeline qe uid lmt],
              faults := tl (faults w)\<rparr>)
      else if lmt < 1 \<or> vector_search_num_candidates < lmt
      then (Inl (Exception (Prefixed ''Vector search failed'' (Text ''$vectorSearch: invalid limit''))),
            w\<lparr>aggregate_calls := aggregate_calls w @ [vector_search_pipeline qe uid lmt],
              faults := tl (faults w)\<rparr>)
      else (case map_sum set_id_str
                   (take (nat lmt) (map fst (map (run_project search_projection)
                      (take (nat lmt) (take (nat vector_search_num_candidates)
                         (ranked sim qe uid (collection w))))))) of
              Inl e \<Rightarrow> (Inl (Exception (Prefixed ''Vector search failed'' (str_exn e))),
                        w\<lparr>aggregate_calls := aggregate_calls w @ [vector_search_pipeline qe uid lmt],
                          faults := tl (faults w)\<rparr>)
            | Inr rs \<Rightarrow> (Inr rs,
                          w\<lparr>aggregate_calls := aggregate_calls w @ [vector_search_pipeline qe uid lmt],
                            faults := tl (faults w)\<rparr>)))"
  by (simp add: MongoDBService_vector_search_def aggregate_to_list_eq run_search_pipeline Let_def
      split: sum.splits)


lemma ranked_props:
  shows ranked_user: "\<forall>it\<in>set (ranked sim qe uid ds). fst it ''user_id'' = Some (BStr uid)"
    and ranked_scored: "\<forall>it\<in>set (ranked sim qe uid ds). snd it \<noteq> None"
    and ranked_member: "\<forall>it\<in>set (ranked sim qe uid ds). fst it \<in> set ds"
    and ranked_descending: "descending (map snd (ranked sim qe uid ds))"
    and ranked_length:
      "length (ranked sim qe uid ds) = length (filter has_vector (notes_of uid ds))"
proof -
  show "\<forall>it\<in>set (ranked sim qe uid ds). fst it ''user_id'' = Some (BStr uid)"
    by (auto simp: ranked_def notes_of_def)
  show "\<forall>it\<in>set (ranked sim qe uid ds). snd it \<noteq> None"
    by (auto simp: ranked_def has_vector_def split: option.splits bson.splits)
  show "\<forall>it\<in>set (ranked sim qe uid ds). fst it \<in> set ds"
    by (auto simp: ranked_def notes_of_def)
  show "descending (map snd (ranked sim qe uid ds))"
    unfolding ranked_def by (rule descending_rev_sort_key)
  show "length (ranked sim qe uid ds) = length (filter has_vector (notes_of uid ds))"
    by (simp add: ranked_def)
qed

lemma run_project_search:
  "fst (run_project search_projection it) ''user_id'' = fst it ''user_id''"
  "fst (run_project search_projection it) ''_id'' = fst it ''_id''"
  "fst (run_project search_projection it) ''title'' = fst it ''title''"
  "fst (run_project search_projection it) ''content'' = fst it ''content''"
  "fst (run_project search_projection it) ''tags'' = fst it ''tags''"
  "fst (run_project search_projection it) ''created_at'' = fst it ''created_at''"
  "fst (run_project search_projection it) ''updated_at'' = fst it ''updated_at''"
  "fst (run_project search_projection it) ''score'' = map_option BFloat (snd it)"
  "fst (run_project search_projection it) ''embedding'' = None"
  "fst (run_project search_projection it) ''id'' = None"
  by (simp_all add: run_project_def search_projection_def)

lemma score_of_project: "score_of (fst (run_project search_projection it)) = snd it"
  by (cases "snd it") (simp_all add: score_of_def run_project_search)

lemma set_id_str_score:
  assumes "list_all2 (\<lambda>x y. set_id_str x = Inr y) xs ys"
  shows "map score_of ys = map score_of xs"
proof -
  have "map (\<lambda>d. d ''score'') ys = map (\<lambda>d. d ''score'') xs"
    using set_id_str_fields [OF assms] by simp
  then have "map ((\<lambda>v. case v of Some (BFloat s) \<Rightarrow> Some s | _ \<Rightarrow> None) \<circ> (\<lambda>d. d ''score'')) ys =
             map ((\<lambda>v. case v of Some (BFloat s) \<Rightarrow> Some s | _ \<Rightarrow> None) \<circ> (\<lambda>d. d ''score'')) xs"
    by (metis map_map)
  moreover have "score_of = (\<lambda>v. case v of Some (BFloat s) \<Rightarrow> Some s | _ \<Rightarrow> None) \<circ> (\<lambda>d. d ''score'')"
    by (rule ext) (simp add: score_of_def)
  ultimately show ?thesis by simp
qed

lemma vector_search_Inr:
  assumes "MongoDBService_vector_search sim w qe uid lmt = (Inr rs, w')"
  defines "V \<equiv> take (nat lmt) (ranked sim qe uid (collection w))"
  shows "1 \<le> lmt" and "lmt \<le> vector_search_num_candidates" and "\<not> fst (next_fault w)"
    and "w' = w\<lparr>aggregate_calls := aggregate_calls w @ [vector_search_pipeline qe uid lmt],
                faults := tl (faults w)\<rparr>"
    and "list_all2 (\<lambda>x y. set_id_str x = Inr y)
           (map (\<lambda>it. fst (run_project search_projection it)) V) rs"
proof -
  have c: "\<not> lmt < 0" "\<not> fst (next_fault w)" "\<not> (lmt < 1 \<or> vector_search_num_candidates < lmt)"
    using assms(1) by (auto simp: vector_search_eq split: if_splits)
  show "1 \<le> lmt" "lmt \<le> vector_search_num_candidates" "\<not> fst (next_fault w)"
    using c by auto
  let ?D = "take (nat lmt) (map fst (map (run_project search_projection)
              (take (nat lmt) (take (nat vector_search_num_candidates)
                 (ranked sim qe uid (collection w))))))"
  have ms: "map_sum set_id_str ?D = Inr rs"
    and w': "w' = w\<lparr>aggregate_calls := aggregate_calls w @ [vector_search_pipeline qe uid lmt],
                faults := tl (faults w)\<rparr>"
    using assms(1) c by (auto simp: vector_search_eq split: sum.splits)
  show "w' = w\<lparr>aggregate_calls := aggregate_calls w @ [vector_search_pipeline qe uid lmt],
                faults := tl (faults w)\<rparr>"
    by (rule w')
  have "min (nat lmt) (nat vector_search_num_candidates) = nat lmt"
    using c by auto
  then have a: "take (nat lmt) (take (nat vector_search_num_candidates)
      (ranked sim qe uid (collection w))) = V"
    by (simp add: V_def)
  have b: "take (nat lmt) V = V"
    by (simp add: V_def)
  have "?D = map (\<lambda>it. fst (run_project search_projection it)) (take (nat lmt) V)"
    unfolding a by (simp only: take_map map_map comp_def)
  then have D: "?D = map (\<lambda>it. fst (run_project search_projection it)) V"
    by (simp only: b)
  have "list_all2 (\<lambda>x y. set_id_str x = Inr y) ?D rs"
    by (rule map_sum_Inr [OF ms])
  then show "list_all2 (\<lambda>x y. set_id_str x = Inr y)
           (map (\<lambda>it. fst (run_project search_projection it)) V) rs"
    by (simp only: D)
qed

lemma vector_search_results:
  assumes "MongoDBService_vector_search sim w qe uid lmt = (Inr rs, w')"
  shows "\<forall>r\<in>set rs. r ''user_id'' = Some (BStr uid)"
    and "\<forall>r\<in>set rs. r ''embedding'' = None"
    and "map score_of rs = map snd (take (nat lmt) (ranked sim qe uid (collection w)))"
    and "descending (map score_of rs)"
    and "length rs = min (nat lmt) (length (filter has_vector (notes_of uid (collection w))))"
proof -
  let ?V = "take (nat lmt) (ranked sim qe uid (collection w))"
  let ?D = "map (\<lambda>it. fst (run_project search_projection it)) ?V"
  note l2 = vector_search_Inr(5) [OF assms]
  have inV: "\<forall>it\<in>set ?V. fst it ''user_id'' = Some (BStr uid)"
    using ranked_user [of sim qe uid "collection w"] by (meson in_set_takeD)
  show "\<forall>r\<in>set rs. r ''user_id'' = Some (BStr uid)"
    by (rule set_id_str_preserves [OF l2]) (use inV in \<open>simp_all add: run_project_search\<close>)
  show "\<forall>r\<in>set rs. r ''embedding'' = None"
    by (rule set_id_str_preserves [OF l2]) (simp_all add: run_project_search)
  have "map score_of ?D = map snd ?V"
    by (simp add: score_of_project comp_def)
  then show sc: "map score_of rs = map snd ?V"
    using set_id_str_score [OF l2] by simp
  have "descending (map snd ?V)"
    using ranked_descending [of sim qe uid "collection w"]
    by (simp add: descending_def take_map [symmetric])
  then show "descending (map score_of rs)"
    by (simp add: sc)
  have "length rs = length ?D"
    using l2 by (metis list_all2_lengthD)
  then show "length rs = min (nat lmt) (length (filter has_vector (notes_of uid (collection w))))"
    by (simp add: ranked_length)
qed


lemma vector_search_returns:
  assumes "1 \<le> lmt" and "lmt \<le> vector_search_num_candidates" and "answers 1 w"
    and ids: "\<forall>d\<in>set (collection w). d ''_id'' \<noteq> None"
  shows "\<exists>rs w'. MongoDBService_vector_search sim w qe uid lmt = (Inr rs, w')"
proof -
  let ?D = "take (nat lmt) (map fst (map (run_project search_projection)
              (take (nat lmt) (take (nat vector_search_num_candidates)
                 (ranked sim qe uid (collection w))))))"
  have nf: "\<not> fst (next_fault w)"
    using assms(3) answers_Suc [of 0 w] by simp
  have "\<forall>x\<in>set ?D. x ''_id'' \<noteq> None"
  proof
    fix x assume "x \<in> set ?D"
    then have "x \<in> set (map fst (map (run_project search_projection)
              (take (nat lmt) (take (nat vector_search_num_candidates)
                 (ranked sim qe uid (collection w))))))"
      by (rule in_set_takeD)
    then obtain it where "it \<in> set (take (nat lmt) (take (nat vector_search_num_candidates)
                 (ranked sim qe uid (collection w))))"
      and x: "x = fst (run_project search_projection it)"
      by auto
    then have "it \<in> set (ranked sim qe uid (collection w))"
      by (meson in_set_takeD)
    then have "fst it \<in> set (collection w)"
      using ranked_member by blast
    then show "x ''_id'' \<noteq> None"
      using ids by (simp add: x run_project_search)
  qed
  then have "\<forall>x\<in>set ?D. \<exists>y. set_id_str x = Inr y"
    by (auto simp: set_id_str_def split: option.splits)
  then obtain rs where "map_sum set_id_str ?D = Inr rs"
    using map_sum_all_Inr by blast
  then show ?thesis
    using assms(1,2) nf by (simp add: vector_search_eq)
qed

lemma vector_search_aggregate:
  assumes "MongoDBService_vector_search sim w qe uid lmt = (Inr rs, w')"
  shows "\<exists>docs. aggregate_to_list sim w (vector_search_pipeline qe uid lmt) lmt = (Inr docs, w') \<and>
           map_sum set_id_str docs = Inr rs"
  using assms
  by (auto simp: MongoDBService_vector_search_def Let_def split: prod.splits sum.splits)

lemma search_notes_Inr:
  assumes "search_notes P sim w q = (Inr resp, w')"
  shows "\<exists>emb rs w2.
           P (query_request (query q)) = Inr emb \<and>
           int (length emb) = gemini_embedding_dimensions \<and>
           MongoDBService_vector_search sim
             (w\<lparr>clock := clock w + 1, embed_calls := embed_calls w @ [query_request (query q)]\<rparr>)
             emb (search_user_id q) (limit q) = (Inr rs, w2) \<and>
           map_sum SearchResult_of rs = Inr (results resp) \<and>
           count resp = length (results resp) \<and> response_query resp = query q"
proof -
  let ?w1 = "w\<lparr>clock := clock w + 1, embed_calls := embed_calls w @ [query_request (query q)]\<rparr>"
  obtain r1 where g: "generate_query_embedding P (w\<lparr>clock := clock w + 1\<rparr>) (query q) = (r1, ?w1)"
    by (simp add: generate_query_embedding_eq)
  show ?thesis
  proof (cases r1)
    case (Inl e)
    then show ?thesis
      using assms g by (simp add: search_notes_def time_time_def)
  next
    case (Inr emb)
    then have p: "P (query_request (query q)) = Inr emb \<and>
        int (length emb) = gemini_embedding_dimensions"
      using g by (auto simp: generate_query_embedding_eq split: sum.splits if_splits)
    obtain r2 w2 where v: "MongoDBService_vector_search sim ?w1 emb (search_user_id q) (limit q)
        = (r2, w2)"
      by fastforce
    show ?thesis
    proof (cases r2)
      case (Inl e)
      then show ?thesis
        using assms g Inr v by (simp add: search_notes_def time_time_def)
    next
      case rs: (Inr rs)
      show ?thesis
      proof (cases "map_sum SearchResult_of rs")
        case (Inl e)
        then show ?thesis
          using assms g Inr v rs by (simp add: search_notes_def time_time_def)
      next
        case srs: (Inr srs)
        have "resp = \<lparr>results = srs, response_query = query q, count = length srs,
                 search_time_ms = real_of_int ((clock w2 - clock w) * 1000)\<rparr>"
          using assms g Inr v rs srs by (simp add: search_notes_def time_time_def)
        then show ?thesis
          using p v rs srs by auto
      qed
    qed
  qed
qed

lemma list_all2_set2: "list_all2 R xs ys \<Longrightarrow> y \<in> set ys \<Longrightarrow> \<exists>x\<in>set xs. R x y"
  by (induction rule: list_all2_induct) auto

lemma SearchResult_of_Inr:
  assumes "SearchResult_of r = Inr sr"
  shows "str_field r ''user_id'' = Some (nr_user_id (sr_note sr))"
    and "score_of r = Some x \<Longrightarrow> sr_score sr = x"
proof -
  obtain n where n: "NoteResponse_of r = Inr n"
    using assms by (cases "NoteResponse_of r") (simp_all add: SearchResult_of_def)
  have "sr_note sr = n"
    using assms n by (auto simp: SearchResult_of_def split: option.splits bson.splits)
  then show "str_field r ''user_id'' = Some (nr_user_id (sr_note sr))"
    using NoteResponse_of_Inr(4) [OF n] by simp
  show "score_of r = Some x \<Longrightarrow> sr_score sr = x"
    using assms n by (auto simp: SearchResult_of_def score_of_def split: option.splits bson.splits)
qed

text \<open>
  Claim C1. The pipeline \<open>vector_search\<close> sends has two stages, the search stage and a
  projection; the equality filter on \<^verbatim>\<open>user_id\<close> is an argument of the search stage
  itself, next to the limit, and no later stage filters. Whenever \<open>vector_search\<close> returns,
  for every query vector, similarity and limit, every returned document belongs to the
  requesting user, and the number of documents is the smaller of the limit and the number
  of that user's documents that carry a vector: the limit counts the user's matches only.
  It returns whenever the limit is between 1 and the candidate pool size, the store
  answers and the stored documents have ids. The notes in a response of \<open>search_notes\<close>
  all belong to the user of the query.
\<close>

theorem vector_search_user_scoped:
  "(\<exists>a spec. vector_search_pipeline qe uid lmt = [VectorSearch a, Project spec] \<and>
      vs_filter a = FieldEq ''user_id'' (BStr uid) \<and> vs_limit a = lmt) \<and>
   (\<forall>rs w'. MongoDBService_vector_search sim w qe uid lmt = (Inr rs, w') \<longrightarrow>
      (\<forall>r\<in>set rs. r ''user_id'' = Some (BStr uid)) \<and>
      length rs = min (nat lmt) (length (filter has_vector (notes_of uid (collection w)))) \<and>
      aggregate_calls w' = aggregate_calls w @ [vector_search_pipeline qe uid lmt]) \<and>
   (1 \<le> lmt \<longrightarrow> lmt \<le> vector_search_num_candidates \<longrightarrow> answers 1 w \<longrightarrow>
      (\<forall>d\<in>set (collection w). d ''_id'' \<noteq> None) \<longrightarrow>
      (\<exists>rs w'. MongoDBService_vector_search sim w qe uid lmt = (Inr rs, w'))) \<and>
   (\<forall>resp w'. search_notes P sim w q = (Inr resp, w') \<longrightarrow>
      (\<forall>sr\<in>set (results resp). nr_user_id (sr_note sr) = search_user_id q))"
proof (intro conjI allI impI)
  show "\<exists>a spec. vector_search_pipeline qe uid lmt = [VectorSearch a, Project spec] \<and>
      vs_filter a = FieldEq ''user_id'' (BStr uid) \<and> vs_limit a = lmt"
    by (simp add: vector_search_pipeline_def)
next
  fix rs w'
  assume a: "MongoDBService_vector_search sim w qe uid lmt = (Inr rs, w')"
  show "\<forall>r\<in>set rs. r ''user_id'' = Some (BStr uid)"
    by (rule vector_search_results(1) [OF a])
  show "length rs = min (nat lmt) (length (filter has_vector (notes_of uid (collection w))))"
    by (rule vector_search_results(5) [OF a])
  show "aggregate_calls w' = aggregate_calls w @ [vector_search_pipeline qe uid lmt]"
    using vector_search_Inr(4) [OF a] by simp
next
  assume "1 \<le> lmt" "lmt \<le> vector_search_num_candidates" "answers 1 w"
    "\<forall>d\<in>set (collection w). d ''_id'' \<noteq> None"
  then show "\<exists>rs w'. MongoDBService_vector_search sim w qe uid lmt = (Inr rs, w')"
    by (rule vector_search_returns)
next
  fix resp w'
  assume a: "search_notes P sim w q = (Inr resp, w')"
  then obtain emb rs w2 where
    v: "MongoDBService_vector_search sim
          (w\<lparr>clock := clock w + 1, embed_calls := embed_calls w @ [query_request (query q)]\<rparr>)
          emb (search_user_id q) (limit q) = (Inr rs, w2)" and
    ms: "map_sum SearchResult_of rs = Inr (results resp)"
    using search_notes_Inr by blast
  have u: "\<forall>r\<in>set rs. r ''user_id'' = Some (BStr (search_user_id q))"
    by (rule vector_search_results(1) [OF v])
  have l2: "list_all2 (\<lambda>x y. SearchResult_of x = Inr y) rs (results resp)"
    by (rule map_sum_Inr [OF ms])
  show "\<forall>sr\<in>set (results resp). nr_user_id (sr_note sr) = search_user_id q"
  proof
    fix sr assume "sr \<in> set (results resp)"
    then obtain r where r: "r \<in> set rs" "SearchResult_of r = Inr sr"
      using list_all2_set2 [OF l2] by blast
    have "r ''user_id'' = Some (BStr (search_user_id q))"
      using u r(1) by blast
    then show "nr_user_id (sr_note sr) = search_user_id q"
      using SearchResult_of_Inr(1) [OF r(2)] by (simp add: str_field_def)
  qed
qed

lemma two_users_ids: "\<forall>d\<in>set (collection two_users_world). d ''_id'' \<noteq> None"
  by (simp add: two_users_world_def stored_note_def)

lemma two_users_answers: "answers n two_users_world"
  by (simp add: answers_def two_users_world_def)

lemma two_users_ranked_u1:
  "map (\<lambda>it. (fst it ''title'', snd it)) (ranked first_component qe ''u1'' (collection two_users_world)) =
     [(Some (BStr ''A''), Some (9 / 10)), (Some (BStr ''C''), Some (1 / 2))]"
  by (simp add: ranked_def notes_of_def has_vector_def two_users_world_def stored_note_def
      first_component_def)

theorem vector_search_user_scoped_witness:
  "(\<exists>rs w'. MongoDBService_vector_search first_component two_users_world [1] ''u1'' 1 = (Inr rs, w') \<and>
      map (\<lambda>r. r ''user_id'') rs = [Some (BStr ''u1'')] \<and>
      map (\<lambda>r. r ''title'') rs = [Some (BStr ''A'')]) \<and>
   (\<exists>rs w'. MongoDBService_vector_search first_component two_users_world [1] ''u1'' 50 = (Inr rs, w') \<and>
      map (\<lambda>r. r ''user_id'') rs = [Some (BStr ''u1''), Some (BStr ''u1'')] \<and>
      map (\<lambda>r. r ''title'') rs = [Some (BStr ''A''), Some (BStr ''C'')])"
proof -
  have nc: "(1::int) \<le> vector_search_num_candidates" "(50::int) \<le> vector_search_num_candidates"
    by (simp_all add: vector_search_num_candidates_def)
  note thm1 = vector_search_user_scoped [of "[1]" "''u1''" 1 first_component two_users_world]
  note thm50 = vector_search_user_scoped [of "[1]" "''u1''" 50 first_component two_users_world]
  obtain rs1 w1 where
    r1: "MongoDBService_vector_search first_component two_users_world [1] ''u1'' 1 = (Inr rs1, w1)"
    using thm1 [THEN conjunct2, THEN conjunct2, THEN conjunct1] nc two_users_ids
      two_users_answers [of 1]
    by auto
  obtain rs50 w50 where
    r50: "MongoDBService_vector_search first_component two_users_world [1] ''u1'' 50 = (Inr rs50, w50)"
    using thm50 [THEN conjunct2, THEN conjunct2, THEN conjunct1] nc two_users_ids
      two_users_answers [of 1]
    by auto
  have n: "length (filter has_vector (notes_of ''u1'' (collection two_users_world))) = 2"
    by (simp add: notes_of_def has_vector_def two_users_world_def stored_note_def)
  have l1: "length rs1 = 1" and u1: "\<forall>r\<in>set rs1. r ''user_id'' = Some (BStr ''u1'')"
    using thm1 [THEN conjunct2, THEN conjunct1, THEN spec, THEN spec, THEN mp, OF r1] n
    by simp_all
  have l50: "length rs50 = 2" and u50: "\<forall>r\<in>set rs50. r ''user_id'' = Some (BStr ''u1'')"
    using thm50 [THEN conjunct2, THEN conjunct1, THEN spec, THEN spec, THEN mp, OF r50] n
    by simp_all
  obtain a where rs1: "rs1 = [a]"
    using l1 by (cases rs1) auto
  obtain b c where rs50: "rs50 = [b, c]"
    using l50 by (cases rs50; cases "tl rs50") auto
  have t1: "map (\<lambda>r. r ''title'') rs1 = [Some (BStr ''A'')]"
    using r1 nc
    by (auto simp: vector_search_eq next_fault_eq ranked_def notes_of_def has_vector_def
        two_users_world_def stored_note_def first_component_def run_project_def
        search_projection_def set_id_str_def split: if_splits)
  have t50: "map (\<lambda>r. r ''title'') rs50 = [Some (BStr ''A''), Some (BStr ''C'')]"
    using r50 nc
    by (auto simp: vector_search_eq next_fault_eq ranked_def notes_of_def has_vector_def
        two_users_world_def stored_note_def first_component_def run_project_def
        search_projection_def set_id_str_def split: if_splits)
  show ?thesis
    using r1 r50 u1 u50 t1 t50 by (auto simp: rs1 rs50)
qed

subsection \<open>Ranked search results\<close>

lemma scores_of_results:
  assumes "list_all2 (\<lambda>r sr. SearchResult_of r = Inr sr) rs srs"
    and "\<forall>r\<in>set rs. score_of r \<noteq> None"
  shows "map score_of rs = map Some (map sr_score srs)"
  using assms
proof (induction rule: list_all2_induct)
  case Nil
  then show ?case by simp
next
  case (Cons r rs sr srs)
  then obtain x where "score_of r = Some x" by auto
  then show ?case
    using Cons SearchResult_of_Inr(2) [of r sr x] by simp
qed

lemma descending_map_Some: "descending (map Some xs) \<Longrightarrow> descending xs"
  by (simp add: descending_def sorted_wrt_map)

lemma SearchResult_of_projected:
  assumes "note_shaped d" and "set_id_str (fst (run_project search_projection (d, Some x))) = Inr r"
  shows "\<exists>sr. SearchResult_of r = Inr sr"
proof -
  obtain v where v: "d ''_id'' = Some v"
    using assms(1) by (auto simp: note_shaped_def split: option.splits)
  have r: "r = (fst (run_project search_projection (d, Some x)))(''_id'' \<mapsto> BStr (py_str v))"
    using assms(2) v by (simp add: set_id_str_def run_project_search)
  have "\<exists>n. NoteResponse_of r = Inr n"
    using assms(1)
    by (auto simp: r NoteResponse_of_def note_shaped_def id_field_def str_field_def
        strs_field_def date_field_def run_project_search split: option.splits)
  moreover have "r ''score'' = Some (BFloat x)"
    by (simp add: r run_project_search)
  ultimately show ?thesis
    by (auto simp: SearchResult_of_def)
qed

lemma search_notes_returns:
  assumes lim: "1 \<le> limit q" "limit q \<le> vector_search_num_candidates"
    and p: "P (query_request (query q)) = Inr emb" "int (length emb) = gemini_embedding_dimensions"
    and ans: "answers 1 w"
    and shaped: "\<forall>d\<in>set (collection w). note_shaped d"
  shows "\<exists>resp w'. search_notes P sim w q = (Inr resp, w')"
proof -
  let ?w1 = "w\<lparr>clock := clock w + 1, embed_calls := embed_calls w @ [query_request (query q)]\<rparr>"
  have g: "generate_query_embedding P (w\<lparr>clock := clock w + 1\<rparr>) (query q) = (Inr emb, ?w1)"
    using p by (simp add: generate_query_embedding_eq)
  have ids: "\<forall>d\<in>set (collection ?w1). d ''_id'' \<noteq> None"
    using shaped by (auto simp: note_shaped_def split: option.splits)
  have ans1: "answers 1 ?w1"
    using ans by (simp add: answers_def)
  obtain rs w2 where
    v: "MongoDBService_vector_search sim ?w1 emb (search_user_id q) (limit q) = (Inr rs, w2)"
    using vector_search_returns [OF lim ans1 ids] by blast
  let ?V = "take (nat (limit q)) (ranked sim emb (search_user_id q) (collection ?w1))"
  note l2 = vector_search_Inr(5) [OF v]
  have "\<forall>r\<in>set rs. \<exists>sr. SearchResult_of r = Inr sr"
  proof
    fix r assume "r \<in> set rs"
    then obtain p where "p \<in> set (map (\<lambda>it. fst (run_project search_projection it)) ?V)"
      and sp: "set_id_str p = Inr r"
      using list_all2_set2 [OF l2] by blast
    then obtain it where it: "it \<in> set ?V" and pp: "p = fst (run_project search_projection it)"
      by auto
    have inr: "it \<in> set (ranked sim emb (search_user_id q) (collection ?w1))"
      using it by (rule in_set_takeD)
    then obtain x where x: "snd it = Some x"
      using ranked_scored by blast
    have "fst it \<in> set (collection w)"
      using ranked_member inr by fastforce
    then have ns: "note_shaped (fst it)"
      using shaped by blast
    have "it = (fst it, Some x)"
      using x by (metis prod.collapse)
    then show "\<exists>sr. SearchResult_of r = Inr sr"
      using SearchResult_of_projected [OF ns, of x r] sp pp by simp
  qed
  then obtain srs where srs: "map_sum SearchResult_of rs = Inr srs"
    using map_sum_all_Inr by blast
  show ?thesis
    using g v srs by (simp add: search_notes_def time_time_def)
qed


lemma aggregate_search_docs:
  assumes "aggregate_to_list sim w (vector_search_pipeline qe uid lmt) lmt = (Inr docs, w')"
  shows "docs = map (\<lambda>it. fst (run_project search_projection it))
                  (take (nat lmt) (ranked sim qe uid (collection w)))"
proof -
  let ?V = "take (nat lmt) (ranked sim qe uid (collection w))"
  have c: "\<not> (lmt < 1 \<or> vector_search_num_candidates < lmt)"
    and d: "docs = take (nat lmt) (map fst (map (run_project search_projection)
              (take (nat lmt) (take (nat vector_search_num_candidates)
                 (ranked sim qe uid (collection w))))))"
    using assms
    by (auto simp: aggregate_to_list_eq run_search_pipeline split: if_splits)
  have "min (nat lmt) (nat vector_search_num_candidates) = nat lmt"
    using c by auto
  then have a: "take (nat lmt) (take (nat vector_search_num_candidates)
      (ranked sim qe uid (collection w))) = ?V"
    by simp
  have b: "take (nat lmt) ?V = ?V"
    by simp
  have "docs = map (\<lambda>it. fst (run_project search_projection it)) (take (nat lmt) ?V)"
    unfolding d a by (simp only: take_map map_map comp_def)
  then show ?thesis
    by (simp only: b)
qed

lemma shows_document_of:
  assumes s: "set_id_str d = Inr r" and sr: "SearchResult_of r = Inr sr"
    and sc: "d ''score'' = Some (BFloat x)"
  shows "shows_document d sr"
proof -
  obtain v where v: "d ''_id'' = Some v" and r: "r = d(''_id'' \<mapsto> BStr (py_str v))"
    using s by (auto simp: set_id_str_def split: option.splits)
  obtain n where n: "NoteResponse_of r = Inr n"
    using sr by (cases "NoteResponse_of r") (simp_all add: SearchResult_of_def)
  have note_n: "sr_note sr = n" and score: "sr_score sr = x"
    using sr n sc by (auto simp: SearchResult_of_def r split: option.splits bson.splits)
  have "id_field r = Some (py_str v)"
    by (simp add: r id_field_def str_field_def)
  then have i: "nr_id n = py_str v"
    using NoteResponse_of_Inr(1) [OF n] by simp
  have f: "d ''title'' = Some (BStr (nr_title n))" "d ''content'' = Some (BStr (nr_content n))"
    "d ''user_id'' = Some (BStr (nr_user_id n))" "d ''tags'' = Some (BStrs (nr_tags n))"
    "d ''created_at'' = Some (BDate (nr_created_at n))"
    "d ''updated_at'' = Some (BDate (nr_updated_at n))"
    using NoteResponse_of_Inr(2-7) [OF n]
    by (auto simp: r str_field_def strs_field_def date_field_def split: option.splits bson.splits)
  show ?thesis
    unfolding shows_document_def note_n score using v i f sc by simp
qed

lemma list_all2_chain:
  assumes "list_all2 R xs ys" and "list_all2 S ys zs" and "\<forall>x\<in>set xs. A x"
    and "\<And>x y z. A x \<Longrightarrow> R x y \<Longrightarrow> S y z \<Longrightarrow> T x z"
  shows "list_all2 T xs zs"
  using assms(1,2,3)
proof (induction arbitrary: zs rule: list_all2_induct)
  case Nil
  then show ?case by simp
next
  case (Cons x xs y ys)
  then obtain z zs' where "zs = z # zs'" "S y z" "list_all2 S ys zs'"
    by (auto simp: list_all2_Cons1)
  then show ?case
    using Cons assms(4) by auto
qed

lemma list_all2_map_eq: "list_all2 (\<lambda>x y. f x = g y) xs ys \<Longrightarrow> map f xs = map g ys"
  by (induction rule: list_all2_induct) auto

text \<open>
  Claim C6. Whenever \<open>search_notes\<close> returns a response for a query with limit \<open>k\<close>, the
  response holds at most \<open>k\<close> results, their scores are in non-increasing order and the
  count is their number. The results are, position by position, the documents the store
  returned for the pipeline, in the store's order and none left out: each result carries
  the id (rendered as a string), title, content, user id, tags and timestamps of the
  document at its position, and that document's score; the documents are the projections
  of the user's ranked notes. It does return when the limit is between 1 and the candidate
  pool size, the provider returns a vector of the configured length, the store answers,
  and the stored documents have the shape \<open>create_note\<close> writes.
\<close>

theorem search_results_ranked:
  "(\<forall>resp w'. search_notes P sim w q = (Inr resp, w') \<longrightarrow>
      length (results resp) \<le> nat (limit q) \<and>
      descending (map sr_score (results resp)) \<and>
      count resp = length (results resp) \<and>
      (\<exists>emb docs w1 w2.
         P (query_request (query q)) = Inr emb \<and> collection w1 = collection w \<and>
         aggregate_to_list sim w1 (vector_search_pipeline emb (search_user_id q) (limit q))
           (limit q) = (Inr docs, w2) \<and>
         docs = map (\<lambda>it. fst (run_project search_projection it))
                  (take (nat (limit q)) (ranked sim emb (search_user_id q) (collection w))) \<and>
         list_all2 shows_document docs (results resp))) \<and>
   (\<forall>emb. 1 \<le> limit q \<longrightarrow> limit q \<le> vector_search_num_candidates \<longrightarrow>
      P (query_request (query q)) = Inr emb \<longrightarrow>
      int (length emb) = gemini_embedding_dimensions \<longrightarrow>
      answers 1 w \<longrightarrow> (\<forall>d\<in>set (collection w). note_shaped d) \<longrightarrow>
      (\<exists>resp w'. search_notes P sim w q = (Inr resp, w')))"
proof (intro conjI allI impI)
  fix resp w'
  assume a: "search_notes P sim w q = (Inr resp, w')"
  let ?w1 = "w\<lparr>clock := clock w + 1, embed_calls := embed_calls w @ [query_request (query q)]\<rparr>"
  obtain emb rs w2 where
    p: "P (query_request (query q)) = Inr emb" and
    v: "MongoDBService_vector_search sim ?w1 emb (search_user_id q) (limit q) = (Inr rs, w2)" and
    ms: "map_sum SearchResult_of rs = Inr (results resp)" and
    cnt: "count resp = length (results resp)"
    using search_notes_Inr [OF a] by blast
  obtain docs where
    agg: "aggregate_to_list sim ?w1 (vector_search_pipeline emb (search_user_id q) (limit q))
            (limit q) = (Inr docs, w2)" and
    ids: "map_sum set_id_str docs = Inr rs"
    using vector_search_aggregate [OF v] by blast
  let ?V = "take (nat (limit q)) (ranked sim emb (search_user_id q) (collection w))"
  have docs: "docs = map (\<lambda>it. fst (run_project search_projection it)) ?V"
    using aggregate_search_docs [OF agg] by simp
  have l2: "list_all2 (\<lambda>r sr. SearchResult_of r = Inr sr) rs (results resp)"
    by (rule map_sum_Inr [OF ms])
  have l1: "list_all2 (\<lambda>d r. set_id_str d = Inr r) docs rs"
    by (rule map_sum_Inr [OF ids])
  have len: "length (results resp) = length rs"
    using l2 by (metis list_all2_lengthD)
  show "length (results resp) \<le> nat (limit q)"
    using vector_search_results(5) [OF v] len by simp
  have sc: "map score_of rs =
      map snd (take (nat (limit q)) (ranked sim emb (search_user_id q) (collection ?w1)))"
    by (rule vector_search_results(3) [OF v])
  have "\<forall>s\<in>set (map score_of rs). s \<noteq> None"
    unfolding sc using ranked_scored [of sim emb "search_user_id q" "collection ?w1"]
    by (auto dest: in_set_takeD)
  then have "\<forall>r\<in>set rs. score_of r \<noteq> None"
    by simp
  then have "map score_of rs = map Some (map sr_score (results resp))"
    by (rule scores_of_results [OF l2])
  then show "descending (map sr_score (results resp))"
    using vector_search_results(4) [OF v] descending_map_Some by metis
  show "count resp = length (results resp)"
    by (rule cnt)
  have scored: "\<forall>d\<in>set docs. \<exists>x. d ''score'' = Some (BFloat x)"
  proof
    fix d assume "d \<in> set docs"
    then obtain it where it: "it \<in> set ?V" and d: "d = fst (run_project search_projection it)"
      unfolding docs by auto
    have "it \<in> set (ranked sim emb (search_user_id q) (collection w))"
      using it by (rule in_set_takeD)
    then obtain x where "snd it = Some x"
      using ranked_scored by blast
    then show "\<exists>x. d ''score'' = Some (BFloat x)"
      by (simp add: d run_project_search)
  qed
  have shown: "list_all2 shows_document docs (results resp)"
    by (rule list_all2_chain [OF l1 l2 scored]) (auto intro: shows_document_of)
  show "\<exists>emb docs w1 w2.
         P (query_request (query q)) = Inr emb \<and> collection w1 = collection w \<and>
         aggregate_to_list sim w1 (vector_search_pipeline emb (search_user_id q) (limit q))
           (limit q) = (Inr docs, w2) \<and>
         docs = map (\<lambda>it. fst (run_project search_projection it))
                  (take (nat (limit q)) (ranked sim emb (search_user_id q) (collection w))) \<and>
         list_all2 shows_document docs (results resp)"
    using p agg docs shown
    by (intro exI [of _ emb] exI [of _ docs] exI [of _ ?w1] exI [of _ w2]) simp
next
  fix emb
  assume "1 \<le> limit q" "limit q \<le> vector_search_num_candidates"
    "P (query_request (query q)) = Inr emb" "int (length emb) = gemini_embedding_dimensions"
    "answers 1 w" "\<forall>d\<in>set (collection w). note_shaped d"
  then show "\<exists>resp w'. search_notes P sim w q = (Inr resp, w')"
    by (rule search_notes_returns)
qed

text \<open>The shape assumed of stored documents is the one ingestion maintains.\<close>

lemma stored_note_shaped: "note_shaped (stored_note i ttl cnt uid tgs emb now)"
  by (simp add: note_shaped_def stored_note_def str_field_def strs_field_def date_field_def)

lemma POST_api_notes_shaped:
  assumes "\<forall>d\<in>set (collection w). note_shaped d"
  shows "\<forall>d\<in>set (collection (snd (POST_api_notes P w b))). note_shaped d"
proof (cases "NoteCreate_validate b")
  case (Inl e)
  then show ?thesis using assms by (simp add: POST_api_notes_def)
next
  case (Inr nt)
  obtain r w' where c: "create_note P w nt = (r, w')" by fastforce
  obtain r1 w1 where g: "generate_note_embedding P w (title nt) (content nt) (tags nt) = (r1, w1)"
    by fastforce
  have w1: "collection w1 = collection w"
    using g by (simp add: generate_note_embedding_text generate_embedding_eq) auto
  have "\<forall>d\<in>set (collection w'). note_shaped d"
  proof (cases r1)
    case (Inl e)
    then have "w' = w1" using c g by (simp add: create_note_def)
    then show ?thesis using assms w1 by simp
  next
    case emb: (Inr emb)
    obtain r2 w2 where d: "MongoDBService_create_note w1 (title nt) (content nt) (user_id nt)
        (tags nt) emb = (r2, w2)"
      by fastforce
    have w2: "\<forall>d\<in>set (collection w2). note_shaped d"
    proof (cases r2)
      case (Inl e)
      then have "collection w2 = collection w1"
        using d
        by (auto simp: MongoDBService_create_note_def utcnow_def insert_one_eq next_fault_eq
            Let_def simp del: matches.simps split: if_splits)
      then show ?thesis using assms w1 by simp
    next
      case (Inr nid)
      then obtain i d0 where
        "d0 = [''title'' \<mapsto> BStr (title nt), ''content'' \<mapsto> BStr (content nt),
               ''user_id'' \<mapsto> BStr (user_id nt), ''tags'' \<mapsto> BStrs (tags nt),
               ''embedding'' \<mapsto> BFloats emb, ''created_at'' \<mapsto> BDate (clock w1),
               ''updated_at'' \<mapsto> BDate (clock w1), ''_id'' \<mapsto> BId i]"
        "collection w2 = collection w1 @ [d0]"
        using db_create_note_Inr [of w1 "title nt" "content nt" "user_id nt" "tags nt" emb nid w2] d
        by blast
      then have "d0 = stored_note i (title nt) (content nt) (user_id nt) (tags nt) emb (clock w1)"
        "collection w2 = collection w1 @ [d0]"
        by (simp_all add: stored_note_def)
      then show ?thesis
        using assms w1 stored_note_shaped by auto
    qed
    show ?thesis
    proof (cases r2)
      case (Inl e)
      then have "w' = w2" using c g emb d by (simp add: create_note_def)
      then show ?thesis using w2 by simp
    next
      case (Inr nid)
      obtain r3 w3 where rd: "MongoDBService_get_note w2 nid = (r3, w3)" by fastforce
      have "w' = w3"
        using c g emb d Inr rd by (auto simp: create_note_def split: sum.splits option.splits)
      then show ?thesis
        using w2 get_note_effect(3) [OF rd] by simp
    qed
  qed
  then show ?thesis
    using Inr c by (simp add: POST_api_notes_def)
qed


lemma two_users_ranked_u1_docs:
  "map (\<lambda>it. (fst it ''_id'', fst it ''title'', fst it ''content'', fst it ''user_id'',
               fst it ''tags'', fst it ''created_at'', snd it))
     (ranked first_component qe ''u1'' (collection two_users_world)) =
     [(Some (BId (new_ObjectId 1)), Some (BStr ''A''), Some (BStr ''temples''), Some (BStr ''u1''),
       Some (BStrs []), Some (BDate 10), Some (9 / 10)),
      (Some (BId (new_ObjectId 3)), Some (BStr ''C''), Some (BStr ''gardens''), Some (BStr ''u1''),
       Some (BStrs [''travel'']), Some (BDate 30), Some (1 / 2))]"
  by (simp add: ranked_def notes_of_def has_vector_def two_users_world_def stored_note_def
      first_component_def)

theorem search_results_ranked_witness:
  "\<exists>resp w'.
     search_notes (constant_provider 768) first_component two_users_world
       \<lparr>query = ''temples in Japan'', search_user_id = ''u1'', limit = 5\<rparr> = (Inr resp, w') \<and>
     map sr_score (results resp) = [9 / 10, 1 / 2] \<and>
     map (\<lambda>sr. nr_id (sr_note sr)) (results resp) = [str_ObjectId (new_ObjectId 1), str_ObjectId (new_ObjectId 3)] \<and>
     map (\<lambda>sr. nr_title (sr_note sr)) (results resp) = [''A'', ''C''] \<and>
     map (\<lambda>sr. nr_content (sr_note sr)) (results resp) = [''temples'', ''gardens''] \<and>
     map (\<lambda>sr. nr_user_id (sr_note sr)) (results resp) = [''u1'', ''u1''] \<and>
     map (\<lambda>sr. nr_tags (sr_note sr)) (results resp) = [[], [''travel'']] \<and>
     map (\<lambda>sr. nr_created_at (sr_note sr)) (results resp) = [10, 30] \<and>
     length (results resp) \<le> 5 \<and>
     descending (map sr_score (results resp)) \<and>
     count resp = 2"
proof -
  let ?q = "\<lparr>query = ''temples in Japan'', search_user_id = ''u1'', limit = 5\<rparr>"
  let ?P = "constant_provider 768"
  note inst = search_results_ranked [of ?P first_component two_users_world ?q]
  have shaped: "\<forall>d\<in>set (collection two_users_world). note_shaped d"
    by (simp add: two_users_world_def stored_note_shaped)
  have "\<exists>resp w'. search_notes ?P first_component two_users_world ?q = (Inr resp, w')"
    using inst [THEN conjunct2, THEN spec, of "replicate 768 (1 / 2)"] shaped
      two_users_answers [of 1]
    by (simp add: constant_provider_def vector_search_num_candidates_def
        gemini_embedding_dimensions_def)
  then obtain resp w' where
    r: "search_notes ?P first_component two_users_world ?q = (Inr resp, w')"
    by blast
  note props = inst [THEN conjunct1, THEN spec, THEN spec, THEN mp, OF r]
  then obtain emb docs where
    docs: "docs = map (\<lambda>it. fst (run_project search_projection it))
             (take 5 (ranked first_component emb ''u1'' (collection two_users_world)))" and
    shown: "list_all2 shows_document docs (results resp)"
    by auto
  have fields: "map (\<lambda>d. (map_option py_str (d ''_id''), d ''title'', d ''content'', d ''user_id'',
                  d ''tags'', d ''created_at'', d ''score'')) docs =
      [(Some (str_ObjectId (new_ObjectId 1)), Some (BStr ''A''), Some (BStr ''temples''), Some (BStr ''u1''),
        Some (BStrs []), Some (BDate 10), Some (BFloat (9 / 10))),
       (Some (str_ObjectId (new_ObjectId 3)), Some (BStr ''C''), Some (BStr ''gardens''), Some (BStr ''u1''),
        Some (BStrs [''travel'']), Some (BDate 30), Some (BFloat (1 / 2)))]"
    using two_users_ranked_u1_docs [of emb]
    by (auto simp: docs run_project_search take_map [symmetric] map_eq_Cons_conv)
  have "list_all2 (\<lambda>d sr. (map_option py_str (d ''_id''), d ''title'', d ''content'',
            d ''user_id'', d ''tags'', d ''created_at'', d ''score'') =
          (Some (nr_id (sr_note sr)), Some (BStr (nr_title (sr_note sr))),
           Some (BStr (nr_content (sr_note sr))), Some (BStr (nr_user_id (sr_note sr))),
           Some (BStrs (nr_tags (sr_note sr))), Some (BDate (nr_created_at (sr_note sr))),
           Some (BFloat (sr_score sr)))) docs (results resp)"
    using shown by (rule list_all2_mono) (simp add: shows_document_def)
  from list_all2_map_eq [OF this]
  have "map (\<lambda>sr. (Some (nr_id (sr_note sr)), Some (BStr (nr_title (sr_note sr))),
           Some (BStr (nr_content (sr_note sr))), Some (BStr (nr_user_id (sr_note sr))),
           Some (BStrs (nr_tags (sr_note sr))), Some (BDate (nr_created_at (sr_note sr))),
           Some (BFloat (sr_score sr)))) (results resp) =
      [(Some (str_ObjectId (new_ObjectId 1)), Some (BStr ''A''), Some (BStr ''temples''), Some (BStr ''u1''),
        Some (BStrs []), Some (BDate 10), Some (BFloat (9 / 10))),
       (Some (str_ObjectId (new_ObjectId 3)), Some (BStr ''C''), Some (BStr ''gardens''), Some (BStr ''u1''),
        Some (BStrs [''travel'']), Some (BDate 30), Some (BFloat (1 / 2)))]"
    using fields by simp
  then obtain a b where ab: "results resp = [a, b]"
    and "nr_id (sr_note a) = str_ObjectId (new_ObjectId 1)"
    "nr_id (sr_note b) = str_ObjectId (new_ObjectId 3)"
    "nr_title (sr_note a) = ''A''" "nr_title (sr_note b) = ''C''"
    "nr_content (sr_note a) = ''temples''" "nr_content (sr_note b) = ''gardens''"
    "nr_user_id (sr_note a) = ''u1''" "nr_user_id (sr_note b) = ''u1''"
    "nr_tags (sr_note a) = []" "nr_tags (sr_note b) = [''travel'']"
    "nr_created_at (sr_note a) = 10" "nr_created_at (sr_note b) = 30"
    "sr_score a = 9 / 10" "sr_score b = 1 / 2"
    by (auto simp: map_eq_Cons_conv)
  then show ?thesis
    using r props by auto
qed

end
